theory Spec2Isabelle
  imports Complex_Main "HOL-Library.Log_Nat"
begin

section \<open>Python floats\<close>

text \<open>
  A Python \<^verbatim>\<open>float\<close> is an IEEE-754 binary64 number. A finite one is modelled by the
  rational it denotes (the two zeros are one value: they compare equal and nothing in this
  program tells them apart), beside the two infinities and NaN. Every arithmetic result
  is the exact rational result rounded to the nearest double, ties to the even mantissa.
\<close>

datatype pyfloat = Fin rat | PInf | NInf | NaN

text \<open>\<open>ilog2 q\<close> is the binary exponent of a positive rational: \<open>2^k \<le> q < 2^(k+1)\<close>.\<close>

definition ilog2 :: "rat \<Rightarrow> int" where
  "ilog2 q = (if 1 \<le> q then bitlen \<lfloor>q\<rfloor> - 1 else - bitlen (\<lceil>1 / q\<rceil> - 1))"

definition round_even :: "rat \<Rightarrow> int" where
  "round_even x =
     (let f = \<lfloor>x\<rfloor>; r = x - of_int f
      in if r < 1 / 2 then f else if 1 / 2 < r then f + 1 else if even f then f else f + 1)"

text \<open>
  Rounding a positive rational: the spacing of doubles around \<open>q\<close> is \<open>2^e\<close> with
  \<open>e = max (ilog2 q) (-1022) - 52\<close> (53-bit mantissas, subnormals below \<open>2^-1022\<close>);
  a result of \<open>2^1024\<close> or more is infinity.
\<close>

definition round_val :: "rat \<Rightarrow> rat" where
  "round_val q =
     (let e = max (ilog2 q) (- 1022) - 52
      in of_int (round_even (q / 2 powi e)) * 2 powi e)"

definition round_pos :: "rat \<Rightarrow> pyfloat" where
  "round_pos q = (if 2 ^ 1024 \<le> round_val q then PInf else Fin (round_val q))"

fun fneg :: "pyfloat \<Rightarrow> pyfloat" where
  "fneg (Fin a) = Fin (- a)"
| "fneg PInf = NInf"
| "fneg NInf = PInf"
| "fneg NaN = NaN"

definition fround :: "rat \<Rightarrow> pyfloat" where
  "fround q = (if q = 0 then Fin 0 else if 0 < q then round_pos q else fneg (round_pos (- q)))"

text \<open>Python's \<^verbatim>\<open>*\<close> on floats.\<close>

fun fmul :: "pyfloat \<Rightarrow> pyfloat \<Rightarrow> pyfloat" where
  "fmul NaN y = NaN"
| "fmul x NaN = NaN"
| "fmul (Fin a) (Fin b) = fround (a * b)"
| "fmul (Fin a) PInf = (if a = 0 then NaN else if 0 < a then PInf else NInf)"
| "fmul (Fin a) NInf = (if a = 0 then NaN else if 0 < a then NInf else PInf)"
| "fmul PInf (Fin b) = (if b = 0 then NaN else if 0 < b then PInf else NInf)"
| "fmul NInf (Fin b) = (if b = 0 then NaN else if 0 < b then NInf else PInf)"
| "fmul PInf PInf = PInf"
| "fmul PInf NInf = NInf"
| "fmul NInf PInf = NInf"
| "fmul NInf NInf = PInf"

text \<open>
  Python's \<^verbatim>\<open>/\<close> on floats. Python raises ZeroDivisionError on a zero divisor; the
  program divides by the literals 2 and 3 only, so that case is never reached and is
  given NaN here.
\<close>

fun fdiv :: "pyfloat \<Rightarrow> pyfloat \<Rightarrow> pyfloat" where
  "fdiv NaN y = NaN"
| "fdiv x NaN = NaN"
| "fdiv (Fin a) (Fin b) = (if b = 0 then NaN else fround (a / b))"
| "fdiv (Fin a) y = Fin 0"
| "fdiv PInf (Fin b) = (if b = 0 then NaN else if 0 < b then PInf else NInf)"
| "fdiv NInf (Fin b) = (if b = 0 then NaN else if 0 < b then NInf else PInf)"
| "fdiv x y = NaN"

text \<open>Python's \<^verbatim>\<open><=\<close> and \<^verbatim>\<open><\<close> on floats: every comparison with NaN is false.\<close>

fun fle :: "pyfloat \<Rightarrow> pyfloat \<Rightarrow> bool" where
  "fle NaN y = False"
| "fle x NaN = False"
| "fle (Fin a) (Fin b) = (a \<le> b)"
| "fle NInf y = True"
| "fle x PInf = True"
| "fle x y = False"

fun flt :: "pyfloat \<Rightarrow> pyfloat \<Rightarrow> bool" where
  "flt NaN y = False"
| "flt x NaN = False"
| "flt (Fin a) (Fin b) = (a < b)"
| "flt NInf NInf = False"
| "flt NInf y = True"
| "flt PInf y = False"
| "flt x PInf = True"
| "flt x y = False"

text \<open>\<^verbatim>\<open>np.pi\<close>: the double nearest to \<open>\<pi>\<close>, 3.141592653589793.\<close>

definition np_pi :: pyfloat where
  "np_pi = Fin (884279719003555 / 281474976710656)"

section \<open>The volume estimator and the dimension validator\<close>

text \<open>
  \<^verbatim>\<open>_calculate_volume\<close>:
  \<^verbatim>\<open>return (4/3) * np.pi * (length/2) * (width/2) * (depth/2) * 1000\<close>,
  evaluated left to right.
\<close>

definition calculate_volume :: "pyfloat \<Rightarrow> pyfloat \<Rightarrow> pyfloat \<Rightarrow> pyfloat" where
  "calculate_volume length' width depth =
     fmul (fmul (fmul (fmul (fmul (fdiv (Fin 4) (Fin 3)) np_pi) (fdiv length' (Fin 2)))
       (fdiv width (Fin 2))) (fdiv depth (Fin 2))) (Fin 1000)"

datatype dimension = Length | Width | Depth

datatype error =
    ValueError_not_positive dimension pyfloat
  | ValueError_float string
  | ValueError_datetime string
  | TypeError
  | OverflowError
  | KeyError string
  | NameError string
  | EOFError
  | FileNotFoundError string
  | EmptyDataError

text \<open>
  \<^verbatim>\<open>_validate_measurements\<close>: three checks in order, each raising ValueError with its
  own message (here: the dimension and the offending value).
\<close>

definition validate_measurements :: "pyfloat \<Rightarrow> pyfloat \<Rightarrow> pyfloat \<Rightarrow> error + unit" where
  "validate_measurements length' width depth =
     (if fle length' (Fin 0) then Inl (ValueError_not_positive Length length')
      else if fle width (Fin 0) then Inl (ValueError_not_positive Width width)
      else if fle depth (Fin 0) then Inl (ValueError_not_positive Depth depth)
      else Inr ())"

section \<open>Strings, values and the library\<close>

text \<open>
  \<^verbatim>\<open>str.strip()\<close> removes leading and trailing whitespace, \<^verbatim>\<open>str.lower()\<close> maps
  upper-case letters to lower case. Strings are modelled on ASCII.
\<close>

definition is_space :: "char \<Rightarrow> bool" where
  "is_space c = (c \<in> set [CHR '' '', CHR 0x09, CHR 0x0A, CHR 0x0B, CHR 0x0C, CHR 0x0D,
     CHR 0x1C, CHR 0x1D, CHR 0x1E, CHR 0x1F])"

definition py_strip :: "string \<Rightarrow> string" where
  "py_strip s = rev (dropWhile is_space (rev (dropWhile is_space s)))"

definition lower_char :: "char \<Rightarrow> char" where
  "lower_char c =
     (case map_of (zip ''ABCDEFGHIJKLMNOPQRSTUVWXYZ'' ''abcdefghijklmnopqrstuvwxyz'') c of
        Some d \<Rightarrow> d | None \<Rightarrow> c)"

definition py_lower :: "string \<Rightarrow> string" where
  "py_lower s = map lower_char s"

text \<open>A pandas Timestamp: nanoseconds since the epoch.\<close>

datatype timestamp = Timestamp int

text \<open>The values that occur in entries and in table cells. A blank cell of a CSV file
  is read as the float NaN.\<close>

datatype pyval = VStr string | VFloat pyfloat | VInt int | VBool bool | VNone | VTime timestamp

text \<open>
  The library functions whose results depend on text formats are parameters of the model:
  \<^verbatim>\<open>pd.to_datetime\<close> and \<^verbatim>\<open>float\<close> on a string (\<open>None\<close> where they raise),
  \<^verbatim>\<open>str\<close> on a float, an int and a Timestamp, and the two conversions between the text
  of a CSV file and the cells of a table. \<^verbatim>\<open>read_csv\<close> infers the type of a column from
  all its texts and converts each text accordingly: \<open>infer_column lib texts\<close> is that
  conversion. \<^verbatim>\<open>to_csv\<close> writes a cell as its column's type says:
  \<open>column_text lib values\<close> is the text of a cell in a column of these values.
\<close>

record pylib =
  to_datetime :: "string \<Rightarrow> timestamp option"
  float_of_str :: "string \<Rightarrow> pyfloat option"
  str_of_float :: "pyfloat \<Rightarrow> string"
  str_of_int :: "int \<Rightarrow> string"
  str_of_time :: "timestamp \<Rightarrow> string"
  infer_column :: "string list \<Rightarrow> string \<Rightarrow> pyval"
  column_text :: "pyval list \<Rightarrow> pyval \<Rightarrow> string"

definition pd_to_datetime :: "pylib \<Rightarrow> string \<Rightarrow> error + timestamp" where
  "pd_to_datetime lib s =
     (case to_datetime lib s of None \<Rightarrow> Inl (ValueError_datetime s) | Some t \<Rightarrow> Inr t)"

text \<open>\<^verbatim>\<open>float(v)\<close>.\<close>

fun py_float :: "pylib \<Rightarrow> pyval \<Rightarrow> error + pyfloat" where
  "py_float lib (VFloat x) = Inr x"
| "py_float lib (VInt n) =
     (case fround (of_int n) of Fin a \<Rightarrow> Inr (Fin a) | _ \<Rightarrow> Inl OverflowError)"
| "py_float lib (VBool b) = Inr (Fin (if b then 1 else 0))"
| "py_float lib (VStr s) =
     (case float_of_str lib s of None \<Rightarrow> Inl (ValueError_float s) | Some x \<Rightarrow> Inr x)"
| "py_float lib VNone = Inl TypeError"
| "py_float lib (VTime t) = Inl TypeError"

text \<open>\<^verbatim>\<open>str(v)\<close>.\<close>

fun py_str :: "pylib \<Rightarrow> pyval \<Rightarrow> string" where
  "py_str lib (VStr s) = s"
| "py_str lib (VFloat x) = str_of_float lib x"
| "py_str lib (VInt n) = str_of_int lib n"
| "py_str lib (VBool b) = (if b then ''True'' else ''False'')"
| "py_str lib VNone = ''None''"
| "py_str lib (VTime t) = str_of_time lib t"

text \<open>\<^verbatim>\<open>pd.notna(v)\<close> on a scalar.\<close>

definition pd_notna :: "pyval \<Rightarrow> bool" where
  "pd_notna v = (v \<noteq> VFloat NaN \<and> v \<noteq> VNone)"

section \<open>Tables\<close>

text \<open>
  An entry is a Python dict, kept in insertion order. A DataFrame is its column labels
  and its rows, each row a dict from column label to value; a label a row does not bind
  is a missing value (NaN). A Series is one row together with the labels of its frame.
\<close>

type_synonym entry = "(string \<times> pyval) list"

record DataFrame =
  columns :: "string list"
  rows :: "entry list"

record Series =
  index :: "string list"
  vals :: entry

text \<open>\<^verbatim>\<open>pd.DataFrame(list_of_dicts)\<close>: the columns are the keys in order of first
  appearance, one row per dict.\<close>

fun first_seen :: "string list \<Rightarrow> string list" where
  "first_seen [] = []"
| "first_seen (k # ks) = k # filter (\<lambda>x. x \<noteq> k) (first_seen ks)"

definition pd_DataFrame :: "entry list \<Rightarrow> DataFrame" where
  "pd_DataFrame es = \<lparr>columns = first_seen (concat (map (map fst) es)), rows = es\<rparr>"


text \<open>\<^verbatim>\<open>df.iterrows()\<close>: the rows with their positions, counted from 0.\<close>

definition iterrows :: "DataFrame \<Rightarrow> (nat \<times> Series) list" where
  "iterrows df = enumerate 0 (map (\<lambda>r. \<lparr>index = columns df, vals = r\<rparr>) (rows df))"

text \<open>\<^verbatim>\<open>key in row\<close> and \<^verbatim>\<open>row[key]\<close> (KeyError on a label the frame does not have).\<close>

definition series_has :: "Series \<Rightarrow> string \<Rightarrow> bool" where
  "series_has row k = (k \<in> set (index row))"

definition series_at :: "Series \<Rightarrow> string \<Rightarrow> pyval" where
  "series_at row k = (case map_of (vals row) k of Some v \<Rightarrow> v | None \<Rightarrow> VFloat NaN)"

definition series_get :: "Series \<Rightarrow> string \<Rightarrow> error + pyval" where
  "series_get row k = (if series_has row k then Inr (series_at row k) else Inl (KeyError k))"

text \<open>
  A CSV file is text: the header and the data records, each record the list of its
  fields. Quoting and the splitting of the text into fields are not modelled.
\<close>

record csv_file =
  header :: "string list"
  body :: "string list list"

text \<open>The field of a record under the column at position \<open>j\<close>; a record that is too
  short has empty fields there.\<close>

definition field_at :: "string list \<Rightarrow> nat \<Rightarrow> string" where
  "field_at line j = (if j < length line then line ! j else [])"

text \<open>
  \<^verbatim>\<open>pd.read_csv(path)\<close>: FileNotFoundError on a path that does not exist,
  EmptyDataError on a file without a header; otherwise the table whose columns are the
  header and whose rows are the records, each field converted as the type inferred for
  its column says (an empty field becomes NaN, digits become a number).
\<close>

definition parse_line :: "pylib \<Rightarrow> csv_file \<Rightarrow> string list \<Rightarrow> entry" where
  "parse_line lib f line =
     map (\<lambda>(j, c). (c, infer_column lib (map (\<lambda>l. field_at l j) (body f)) (field_at line j)))
       (enumerate 0 (header f))"

definition parse_csv :: "pylib \<Rightarrow> csv_file \<Rightarrow> DataFrame" where
  "parse_csv lib f = \<lparr>columns = header f, rows = map (parse_line lib f) (body f)\<rparr>"

definition read_csv :: "pylib \<Rightarrow> (string \<rightharpoonup> csv_file) \<Rightarrow> string \<Rightarrow> error + DataFrame" where
  "read_csv lib fs path =
     (case fs path of
        None \<Rightarrow> Inl (FileNotFoundError path)
      | Some f \<Rightarrow> if header f = [] then Inl EmptyDataError else Inr (parse_csv lib f))"





section \<open>The class UltrasoundDataEntry\<close>

text \<open>What the program prints.\<close>

datatype message =
    Prompt string
  | Entry_header
  | Added_entry pyval
  | Loaded nat string
  | Added_row nat pyval
  | Imported nat string
  | File_not_found string
  | Saved nat string
  | Cleared

text \<open>What happens besides the change of \<^verbatim>\<open>self.entries\<close>: lines printed, and calls of
  the validator and of the estimator, in order.\<close>

datatype event =
    Print message
  | Call_validate pyfloat pyfloat pyfloat
  | Call_calculate pyfloat pyfloat pyfloat

fun is_calculate :: "event \<Rightarrow> bool" where
  "is_calculate (Call_calculate l w d) = True"
| "is_calculate ev = False"

text \<open>The object and its world: \<^verbatim>\<open>self.entries\<close>, the lines the console has yet to
  supply, the file system, and the trace of events.\<close>

record state =
  entries :: "entry list"
  stdin :: "string list"
  files :: "string \<rightharpoonup> csv_file"
  trace :: "event list"

text \<open>A method is a function from the state to the new state and either the raised
  exception or the returned value. An exception keeps the state reached so far.\<close>

type_synonym 'a prog = "state \<Rightarrow> state \<times> (error + 'a)"

definition ret :: "'a \<Rightarrow> 'a prog" where
  "ret x s = (s, Inr x)"

definition raise :: "error \<Rightarrow> 'a prog" where
  "raise e s = (s, Inl e)"

definition lift :: "error + 'a \<Rightarrow> 'a prog" where
  "lift r s = (s, r)"

definition bindp :: "'a prog \<Rightarrow> ('a \<Rightarrow> 'b prog) \<Rightarrow> 'b prog" where
  "bindp m f s = (case m s of (s', Inl e) \<Rightarrow> (s', Inl e) | (s', Inr x) \<Rightarrow> f x s')"

definition emit :: "event \<Rightarrow> unit prog" where
  "emit ev s = (s\<lparr>trace := trace s @ [ev]\<rparr>, Inr ())"

text \<open>\<^verbatim>\<open>input(prompt)\<close>: prints the prompt and reads one line.\<close>

definition py_input :: "string \<Rightarrow> string prog" where
  "py_input prompt s =
     (case stdin s of
        [] \<Rightarrow> (s\<lparr>trace := trace s @ [Print (Prompt prompt)]\<rparr>, Inl EOFError)
      | line # rest \<Rightarrow>
          (s\<lparr>stdin := rest, trace := trace s @ [Print (Prompt prompt)]\<rparr>, Inr line))"

text \<open>The calls \<^verbatim>\<open>self._validate_measurements(...)\<close> and
  \<^verbatim>\<open>self._calculate_volume(...)\<close>, recorded in the trace.\<close>

definition self_validate_measurements :: "pyfloat \<Rightarrow> pyfloat \<Rightarrow> pyfloat \<Rightarrow> unit prog" where
  "self_validate_measurements length' width depth =
     bindp (emit (Call_validate length' width depth))
       (\<lambda>_. lift (validate_measurements length' width depth))"

definition self_calculate_volume :: "pyfloat \<Rightarrow> pyfloat \<Rightarrow> pyfloat \<Rightarrow> pyfloat prog" where
  "self_calculate_volume length' width depth =
     bindp (emit (Call_calculate length' width depth))
       (\<lambda>_. ret (calculate_volume length' width depth))"

text \<open>\<^verbatim>\<open>entry[key]\<close> on a dict, and \<^verbatim>\<open>self.entries.append(entry)\<close>.\<close>

definition dict_get :: "entry \<Rightarrow> string \<Rightarrow> error + pyval" where
  "dict_get entry k = (case map_of entry k of None \<Rightarrow> Inl (KeyError k) | Some v \<Rightarrow> Inr v)"

definition append_entry :: "entry \<Rightarrow> unit prog" where
  "append_entry entry s = (s\<lparr>entries := entries s @ [entry]\<rparr>, Inr ())"

subsection \<open>Batch import\<close>

text \<open>The guard of the three optional columns:
  \<^verbatim>\<open>key in row and pd.notna(row[key])\<close>.\<close>

definition present :: "Series \<Rightarrow> string \<Rightarrow> bool" where
  "present row k = (series_has row k \<and> pd_notna (series_at row k))"

text \<open>\<^verbatim>\<open>_process_csv_row\<close>.\<close>

definition process_csv_row :: "pylib \<Rightarrow> Series \<Rightarrow> entry prog" where
  "process_csv_row lib row =
     bindp (lift (series_get row ''patient_id'')) (\<lambda>v_id.
     let patient_id = py_strip (py_str lib v_id) in
     bindp (lift (series_get row ''measurement_time'')) (\<lambda>v_time.
     let timestamp_str = py_strip (py_str lib v_time) in
     bindp (lift (pd_to_datetime lib timestamp_str)) (\<lambda>measurement_time.
     bindp (lift (series_get row ''length_cm'')) (\<lambda>v_length.
     bindp (lift (py_float lib v_length)) (\<lambda>length'.
     bindp (lift (series_get row ''width_cm'')) (\<lambda>v_width.
     bindp (lift (py_float lib v_width)) (\<lambda>width.
     bindp (lift (series_get row ''depth_cm'')) (\<lambda>v_depth.
     bindp (lift (py_float lib v_depth)) (\<lambda>depth.
     bindp (self_validate_measurements length' width depth) (\<lambda>_.
     bindp (if present row ''voided_volume_ml''
            then bindp (lift (py_float lib (series_at row ''voided_volume_ml'')))
                   (\<lambda>x. ret (VFloat x))
            else ret VNone) (\<lambda>voided_volume.
     let context = (if present row ''context''
                    then py_lower (py_strip (py_str lib (series_at row ''context'')))
                    else ''unknown'');
         notes = (if present row ''notes''
                  then py_strip (py_str lib (series_at row ''notes''))
                  else []) in
     bindp (self_calculate_volume length' width depth) (\<lambda>calculated_volume.
     ret [(''patient_id'', VStr patient_id),
          (''timestamp'', VTime measurement_time),
          (''length_cm'', VFloat length'),
          (''width_cm'', VFloat width),
          (''depth_cm'', VFloat depth),
          (''voided_volume_ml'', voided_volume),
          (''context'', VStr context),
          (''notes'', VStr notes),
          (''calculated_volume_ml'', VFloat calculated_volume),
          (''source'', VStr ''csv_import'')]))))))))))))"

text \<open>The \<^verbatim>\<open>for idx, row in df.iterrows()\<close> loop of \<^verbatim>\<open>auto_entry\<close>.\<close>

fun for_rows :: "pylib \<Rightarrow> (nat \<times> Series) list \<Rightarrow> unit prog" where
  "for_rows lib [] = ret ()"
| "for_rows lib ((idx, row) # rest) =
     bindp (process_csv_row lib row) (\<lambda>entry.
     bindp (append_entry entry) (\<lambda>_.
     bindp (lift (dict_get entry ''calculated_volume_ml'')) (\<lambda>v.
     bindp (emit (Print (Added_row (idx + 1) v))) (\<lambda>_.
     for_rows lib rest))))"

text \<open>The body of the \<^verbatim>\<open>try\<close> block of \<^verbatim>\<open>auto_entry\<close>, and \<^verbatim>\<open>auto_entry\<close> with
  its \<^verbatim>\<open>except FileNotFoundError\<close> handler; any other exception propagates.\<close>

definition auto_entry_try :: "pylib \<Rightarrow> string \<Rightarrow> entry list prog" where
  "auto_entry_try lib csv_filepath =
     bindp (\<lambda>s. (s, read_csv lib (files s) csv_filepath)) (\<lambda>df.
     bindp (emit (Print (Loaded (length (rows df)) csv_filepath))) (\<lambda>_.
     bindp (for_rows lib (iterrows df)) (\<lambda>_.
     bindp (emit (Print (Imported (length (rows df)) csv_filepath))) (\<lambda>_.
     (\<lambda>s. (s, Inr (entries s)))))))"

definition auto_entry :: "pylib \<Rightarrow> string \<Rightarrow> entry list prog" where
  "auto_entry lib csv_filepath s =
     (case auto_entry_try lib csv_filepath s of
        (s', Inl (FileNotFoundError p)) \<Rightarrow>
          bindp (emit (Print (File_not_found csv_filepath))) (\<lambda>_. ret []) s'
      | r \<Rightarrow> r)"

subsection \<open>Interactive entry\<close>

text \<open>The local variables of \<^verbatim>\<open>manual_entry\<close> after its prompts (lines 46 to 65).\<close>

record manual_fields =
  m_patient_id :: string
  m_measurement_time :: timestamp
  m_length :: pyfloat
  m_width :: pyfloat
  m_depth :: pyfloat
  m_voided_volume :: pyval
  m_context :: string
  m_notes :: string

definition manual_prompts :: "pylib \<Rightarrow> manual_fields prog" where
  "manual_prompts lib =
     bindp (emit (Print Entry_header)) (\<lambda>_.
     bindp (py_input ''Patient ID: '') (\<lambda>a.
     let patient_id = py_strip a in
     bindp (py_input ''Measurement time (YYYY-MM-DD HH:MM): '') (\<lambda>b.
     let timestamp_str = py_strip b in
     bindp (lift (pd_to_datetime lib timestamp_str)) (\<lambda>measurement_time.
     bindp (py_input ''Length (cm): '') (\<lambda>c.
     bindp (lift (py_float lib (VStr c))) (\<lambda>length'.
     bindp (py_input ''Width (cm): '') (\<lambda>d.
     bindp (lift (py_float lib (VStr d))) (\<lambda>width.
     bindp (py_input ''Depth (cm): '') (\<lambda>e.
     bindp (lift (py_float lib (VStr e))) (\<lambda>depth.
     bindp (py_input ''Voided volume (ml, press Enter if none): '') (\<lambda>f.
     bindp (if f \<noteq> [] then bindp (lift (py_float lib (VStr f))) (\<lambda>x. ret (VFloat x))
            else ret VNone) (\<lambda>voided_volume.
     bindp (py_input ''Context (pre_void/post_void/other): '') (\<lambda>g.
     let context = py_strip g in
     bindp (py_input ''Notes (optional): '') (\<lambda>h.
     let notes = py_strip h in
     ret \<lparr>m_patient_id = patient_id, m_measurement_time = measurement_time,
          m_length = length', m_width = width, m_depth = depth,
          m_voided_volume = voided_volume, m_context = context, m_notes = notes\<rparr>
     ))))))))))))))"

text \<open>
  \<^verbatim>\<open>manual_entry\<close>. The dict display of line 70 reads the name
  \<^verbatim>\<open>calculated_volume\<close>, which the method never assigns: the read raises NameError.
\<close>

definition manual_entry :: "pylib \<Rightarrow> entry prog" where
  "manual_entry lib =
     bindp (manual_prompts lib) (\<lambda>loc.
     bindp (self_validate_measurements (m_length loc) (m_width loc) (m_depth loc)) (\<lambda>_.
     bindp (raise (NameError ''calculated_volume'')) (\<lambda>calculated_volume.
     let entry = [(''patient_id'', VStr (m_patient_id loc)),
                  (''timestamp'', VTime (m_measurement_time loc)),
                  (''length_cm'', VFloat (m_length loc)),
                  (''width_cm'', VFloat (m_width loc)),
                  (''depth_cm'', VFloat (m_depth loc)),
                  (''voided_volume_ml'', m_voided_volume loc),
                  (''context'', VStr (m_context loc)),
                  (''notes'', VStr (m_notes loc)),
                  (''calculated_volume_ml'', calculated_volume),
                  (''source'', VStr ''manual_entry'')] in
     bindp (append_entry entry) (\<lambda>_.
     bindp (lift (dict_get entry ''calculated_volume_ml'')) (\<lambda>v.
     bindp (emit (Print (Added_entry v))) (\<lambda>_.
     ret entry))))))"

subsection \<open>Saving, listing, clearing\<close>


text \<open>\<^verbatim>\<open>get_entries\<close> and \<^verbatim>\<open>clear_entries\<close>.\<close>

definition get_entries :: "DataFrame prog" where
  "get_entries s = (s, Inr (pd_DataFrame (entries s)))"

definition clear_entries :: "unit prog" where
  "clear_entries =
     bindp (\<lambda>s. (s\<lparr>entries := []\<rparr>, Inr ())) (\<lambda>_. emit (Print Cleared))"

text \<open>The keys of every entry the class builds, in the order of the dict display.\<close>

definition field_names :: "string list" where
  "field_names = [''patient_id'', ''timestamp'', ''length_cm'', ''width_cm'', ''depth_cm'',
     ''voided_volume_ml'', ''context'', ''notes'', ''calculated_volume_ml'', ''source'']"

section \<open>Example data\<close>

text \<open>The state after \<^verbatim>\<open>__init__\<close> (\<^verbatim>\<open>self.entries = []\<close>), with nothing on the console
  and no files.\<close>

definition init_state :: state where
  "init_state = \<lparr>entries = [], stdin = [], files = Map.empty, trace = []\<rparr>"

text \<open>The outcome of \<^verbatim>\<open>_process_csv_row\<close> on a row: the exception or the entry.\<close>

definition row_outcome :: "pylib \<Rightarrow> Series \<Rightarrow> error + entry" where
  "row_outcome lib row = snd (process_csv_row lib row init_state)"

text \<open>The volume of the 4 by 3 by 5 example, 31415.926535897932.\<close>

definition demo_volume :: pyfloat where
  "demo_volume = Fin (2158886032723523 / 68719476736)"

text \<open>
  A library that knows just the texts of the examples: the floats and their shortest
  decimal texts, the patient id \<^verbatim>\<open>007\<close> that \<^verbatim>\<open>read_csv\<close> takes for the integer 7, and
  one time stamp. A column of integers is read as integers, a column of decimal numbers
  and blanks as floats, any other column as strings with NaN for the blanks; a cell is
  written as \<^verbatim>\<open>str\<close> gives it, a missing value as the empty text.
\<close>

definition demo_floats :: "(string \<times> pyfloat) list" where
  "demo_floats = [(''4.0'', Fin 4), (''3.0'', Fin 3), (''5.0'', Fin 5), (''0.0'', Fin 0),
     (''31415.926535897932'', demo_volume)]"

definition demo_str_of_float :: "pyfloat \<Rightarrow> string" where
  "demo_str_of_float x =
     (case map_of (map (\<lambda>(t, y). (y, t)) demo_floats) x of Some t \<Rightarrow> t | None \<Rightarrow> ''nan'')"

definition demo_str_of_int :: "int \<Rightarrow> string" where
  "demo_str_of_int n = (if n = 7 then ''7'' else ''0'')"

definition demo_infer :: "string list \<Rightarrow> string \<Rightarrow> pyval" where
  "demo_infer col =
     (if col \<noteq> [] \<and> list_all (\<lambda>t. t \<in> set [''007'', ''7'']) col then (\<lambda>t. VInt 7)
      else if list_all (\<lambda>t. t \<in> set ([] # map fst demo_floats)) col
      then (\<lambda>t. case map_of demo_floats t of Some x \<Rightarrow> VFloat x | None \<Rightarrow> VFloat NaN)
      else (\<lambda>t. if t = [] then VFloat NaN else VStr t))"

definition demo_text :: "pyval \<Rightarrow> string" where
  "demo_text v =
     (case v of
        VStr t \<Rightarrow> t
      | VFloat x \<Rightarrow> (if x = NaN then [] else demo_str_of_float x)
      | VInt n \<Rightarrow> demo_str_of_int n
      | VBool b \<Rightarrow> (if b then ''True'' else ''False'')
      | VNone \<Rightarrow> []
      | VTime t \<Rightarrow> ''2024-01-15 10:30:00'')"

definition demo_lib :: pylib where
  "demo_lib =
     \<lparr>to_datetime = (\<lambda>s. if s = ''2024-01-15 10:30''
                            then Some (Timestamp 1705314600000000000) else None),
      float_of_str = (\<lambda>s. if s = ''4.0'' then Some (Fin 4)
                             else if s = ''3.0'' then Some (Fin 3)
                             else if s = ''5.0'' then Some (Fin 5)
                             else None),
      str_of_float = demo_str_of_float,
      str_of_int = demo_str_of_int,
      str_of_time = (\<lambda>t. ''2024-01-15 10:30:00''),
      infer_column = demo_infer,
      column_text = (\<lambda>col. demo_text)\<rparr>"

text \<open>A batch row with the five required columns only, a row of the same frame with a
  zero length, and a row with the three optional columns.\<close>

definition demo_columns :: "string list" where
  "demo_columns = [''patient_id'', ''measurement_time'', ''length_cm'', ''width_cm'', ''depth_cm'']"

definition demo_row :: entry where
  "demo_row = [(''patient_id'', VStr ''P001''), (''measurement_time'', VStr ''2024-01-15 10:30''),
     (''length_cm'', VFloat (Fin 4)), (''width_cm'', VFloat (Fin 3)), (''depth_cm'', VFloat (Fin 5))]"

definition bad_row :: entry where
  "bad_row = [(''patient_id'', VStr ''P002''), (''measurement_time'', VStr ''2024-01-15 10:30''),
     (''length_cm'', VFloat (Fin 0)), (''width_cm'', VFloat (Fin 3)), (''depth_cm'', VFloat (Fin 5))]"

definition full_row :: Series where
  "full_row =
     \<lparr>index = demo_columns @ [''voided_volume_ml'', ''context'', ''notes''],
      vals = demo_row @ [(''voided_volume_ml'', VFloat (Fin 250)), (''context'', VStr '' Pre_Void ''),
                         (''notes'', VStr '' Full bladder '')]\<rparr>"

text \<open>The entry built from \<open>demo_row\<close>.\<close>

definition demo_entry :: entry where
  "demo_entry =
     [(''patient_id'', VStr ''P001''),
      (''timestamp'', VTime (Timestamp 1705314600000000000)),
      (''length_cm'', VFloat (Fin 4)),
      (''width_cm'', VFloat (Fin 3)),
      (''depth_cm'', VFloat (Fin 5)),
      (''voided_volume_ml'', VNone),
      (''context'', VStr ''unknown''),
      (''notes'', VStr []),
      (''calculated_volume_ml'', VFloat demo_volume),
      (''source'', VStr ''csv_import'')]"

text \<open>What the operator types in the interactive example.\<close>

definition demo_console :: "string list" where
  "demo_console = [''P001'', ''2024-01-15 10:30'', ''4.0'', ''3.0'', ''5.0'', [],
     '' Pre_Void '', []]"






text \<open>A batch file whose second record has a zero length, the table read from it, and a
  state that holds the file.\<close>

definition batch_file :: csv_file where
  "batch_file =
     \<lparr>header = demo_columns,
      body = [[''P001'', ''2024-01-15 10:30'', ''4.0'', ''3.0'', ''5.0''],
              [''P002'', ''2024-01-15 10:30'', ''0.0'', ''3.0'', ''5.0''],
              [''P001'', ''2024-01-15 10:30'', ''4.0'', ''3.0'', ''5.0'']]\<rparr>"

definition batch_table :: DataFrame where
  "batch_table = \<lparr>columns = demo_columns, rows = [demo_row, bad_row, demo_row]\<rparr>"

definition batch_state :: state where
  "batch_state = init_state\<lparr>files := [''batch.csv'' \<mapsto> batch_file]\<rparr>"

section \<open>Properties of rounding\<close>

lemma ilog2_bounds:
  assumes "0 < q"
  shows "2 powi (ilog2 q) \<le> q \<and> q < 2 powi (ilog2 q + 1)"
proof (cases "1 \<le> q")
  case True
  define f where "f = \<lfloor>q\<rfloor>"
  have f1: "1 \<le> f" using True by (simp add: f_def le_floor_iff)
  then have b1: "1 \<le> bitlen f" by (simp add: bitlen_alt_def)
  from bitlen_bounds[of f] f1
  have lo: "2 ^ nat (bitlen f - 1) \<le> f" and hi: "f < 2 ^ nat (bitlen f)" by auto
  have "(2::rat) powi (bitlen f - 1) = of_int (2 ^ nat (bitlen f - 1))"
    using b1 by (simp add: power_int_def)
  also have "\<dots> \<le> of_int f" using lo by (simp only: of_int_le_iff)
  also have "\<dots> \<le> q" by (simp add: f_def)
  finally have A: "(2::rat) powi (bitlen f - 1) \<le> q" .
  have "f + 1 \<le> 2 ^ nat (bitlen f)" using hi by simp
  then have "(of_int (f + 1)::rat) \<le> of_int (2 ^ nat (bitlen f))" by (simp only: of_int_le_iff)
  moreover have "q < of_int (f + 1)" unfolding f_def using floor_correct[of q] by simp
  moreover have "(2::rat) powi (bitlen f) = of_int (2 ^ nat (bitlen f))"
    using b1 by (simp add: power_int_def)
  ultimately have B: "q < 2 powi (bitlen f)" by simp
  show ?thesis using A B True by (simp add: ilog2_def f_def)
next
  case False
  define r where "r = 1 / q"
  define c where "c = \<lceil>r\<rceil>"
  have r1: "1 < r" using False assms by (simp add: r_def)
  have c2: "2 \<le> c" using r1 unfolding c_def by (simp add: le_ceiling_iff)
  define b where "b = bitlen (c - 1)"
  have b1: "1 \<le> b" using c2 by (simp add: bitlen_alt_def b_def)
  from bitlen_bounds[of "c - 1"] c2
  have lo: "2 ^ nat (b - 1) \<le> c - 1" and hi: "c - 1 < 2 ^ nat b" by (auto simp: b_def)
  have "(of_int (c - 1)::rat) < r" unfolding c_def using ceiling_correct[of r] by simp
  moreover have "(of_int (2 ^ nat (b - 1))::rat) \<le> of_int (c - 1)"
    using lo by (simp only: of_int_le_iff)
  then have "(2::rat) ^ nat (b - 1) \<le> of_int (c - 1)" by simp
  ultimately have lo': "(2::rat) ^ nat (b - 1) < r" by linarith
  have "c \<le> 2 ^ nat b" using hi by simp
  then have "(of_int c::rat) \<le> of_int (2 ^ nat b)" by (simp only: of_int_le_iff)
  then have "(of_int c::rat) \<le> 2 ^ nat b" by simp
  moreover have "r \<le> of_int c" unfolding c_def by simp
  ultimately have hi': "r \<le> (2::rat) ^ nat b" by linarith
  have q: "q = 1 / r" by (simp add: r_def)
  have p1: "(2::rat) powi (- b) = 1 / 2 ^ nat b" using b1 by (simp add: power_int_def field_simps)
  have p2: "(2::rat) powi (- b + 1) = 1 / 2 ^ nat (b - 1)"
    using b1 by (cases "b = 1") (simp_all add: power_int_def field_simps nat_diff_distrib)
  have A: "(2::rat) powi (- b) \<le> q" unfolding p1 q using hi' r1
    by (simp add: field_simps)
  have B: "q < (2::rat) powi (- b + 1)" unfolding p2 q using lo' r1
    by (simp add: field_simps)
  show ?thesis using A B False by (simp add: ilog2_def b_def c_def r_def)
qed

lemma powi2_less_iff: "(2::rat) powi m < 2 powi n \<longleftrightarrow> m < n"
proof
  assume a: "(2::rat) powi m < 2 powi n"
  show "m < n"
  proof (rule ccontr)
    assume "\<not> m < n"
    then have "n \<le> m" by simp
    then have "(2::rat) powi n \<le> 2 powi m" by (intro power_int_increasing) simp_all
    with a show False by simp
  qed
next
  assume "m < n"
  then show "(2::rat) powi m < 2 powi n" by (intro power_int_strict_increasing) simp_all
qed

lemma powi2_le_iff: "(2::rat) powi m \<le> 2 powi n \<longleftrightarrow> m \<le> n"
  using powi2_less_iff[of n m] by (auto simp: not_less[symmetric])

lemma powi2_pos: "0 < (2::rat) powi n"
  by (simp add: zero_less_power_int)

lemma ilog2_unique:
  assumes "2 powi k \<le> q" "q < 2 powi (k + 1)"
  shows "ilog2 q = k"
proof -
  have q0: "0 < q" using assms(1) powi2_pos[of k] by linarith
  from ilog2_bounds[OF q0] have a: "2 powi (ilog2 q) \<le> q" and b: "q < 2 powi (ilog2 q + 1)" by auto
  have "(2::rat) powi k < 2 powi (ilog2 q + 1)" using assms(1) b by simp
  then have "k < ilog2 q + 1" by (simp only: powi2_less_iff)
  moreover have "(2::rat) powi (ilog2 q) < 2 powi (k + 1)" using a assms(2) by simp
  then have "ilog2 q < k + 1" by (simp only: powi2_less_iff)
  ultimately show ?thesis by simp
qed

lemma ilog2_mono:
  assumes "0 < p" "p \<le> q"
  shows "ilog2 p \<le> ilog2 q"
proof -
  have q0: "0 < q" using assms by simp
  have "(2::rat) powi (ilog2 p) \<le> p" using ilog2_bounds[OF assms(1)] by simp
  also have "p \<le> q" by fact
  also have "q < 2 powi (ilog2 q + 1)" using ilog2_bounds[OF q0] by simp
  finally have "ilog2 p < ilog2 q + 1" by (simp only: powi2_less_iff)
  then show ?thesis by simp
qed

lemma round_even_cases: "round_even x = \<lfloor>x\<rfloor> \<or> round_even x = \<lfloor>x\<rfloor> + 1"
  by (simp add: round_even_def Let_def)

lemma round_even_eqI:
  assumes "of_int n - 1 / 2 < x" "x < of_int n + 1 / 2"
  shows "round_even x = n"
proof -
  define f where "f = \<lfloor>x\<rfloor>"
  have fb: "of_int f \<le> x" "x < of_int f + 1" unfolding f_def using floor_correct[of x] by simp_all
  have "of_int (n - 1) < (of_int (f + 1)::rat)" using assms fb by simp
  then have 1: "n - 1 < f + 1" by (simp only: of_int_less_iff)
  have "of_int f < (of_int (n + 1)::rat)" using assms fb by simp
  then have 2: "f < n + 1" by (simp only: of_int_less_iff)
  from 1 2 have "f = n \<or> f = n - 1" by auto
  then show ?thesis
  proof
    assume "f = n"
    then show ?thesis using assms by (simp add: round_even_def Let_def f_def[symmetric])
  next
    assume "f = n - 1"
    then show ?thesis using assms by (simp add: round_even_def Let_def f_def[symmetric])
  qed
qed

lemma round_even_of_int: "round_even (of_int n) = n"
  by (rule round_even_eqI) simp_all

lemma round_even_mono:
  assumes "x \<le> y"
  shows "round_even x \<le> round_even y"
proof -
  have fle: "\<lfloor>x\<rfloor> \<le> \<lfloor>y\<rfloor>" using assms by (rule floor_mono)
  show ?thesis
  proof (cases "\<lfloor>x\<rfloor> = \<lfloor>y\<rfloor>")
    case True
    then show ?thesis using assms by (auto simp add: round_even_def Let_def)
  next
    case False
    then have "\<lfloor>x\<rfloor> + 1 \<le> \<lfloor>y\<rfloor>" using fle by simp
    moreover have "round_even x \<le> \<lfloor>x\<rfloor> + 1" using round_even_cases[of x] by auto
    moreover have "\<lfloor>y\<rfloor> \<le> round_even y" using round_even_cases[of y] by auto
    ultimately show ?thesis by simp
  qed
qed

lemma round_even_ge: "of_int m \<le> x \<Longrightarrow> m \<le> round_even x"
  using round_even_mono[of "of_int m" x] by (simp add: round_even_of_int)

lemma round_even_le: "x \<le> of_int m \<Longrightarrow> round_even x \<le> m"
  using round_even_mono[of x "of_int m"] by (simp add: round_even_of_int)

lemma round_val_nonneg:
  assumes "0 < q"
  shows "0 \<le> round_val q"
proof -
  define e where "e = max (ilog2 q) (- 1022) - 52"
  have "0 \<le> q / 2 powi e" using assms powi2_pos[of e] by simp
  then have "0 \<le> round_even (q / 2 powi e)" using round_even_ge[of 0 "q / 2 powi e"] by simp
  then show ?thesis using powi2_pos[of e] by (simp add: round_val_def Let_def e_def[symmetric])
qed

lemma round_val_mono:
  assumes "0 < p" "p \<le> q"
  shows "round_val p \<le> round_val q"
proof -
  define ep where "ep = max (ilog2 p) (- 1022) - 52"
  define eq where "eq = max (ilog2 q) (- 1022) - 52"
  have q0: "0 < q" using assms by simp
  have vp: "round_val p = of_int (round_even (p / 2 powi ep)) * 2 powi ep"
    by (simp add: round_val_def Let_def ep_def)
  have vq: "round_val q = of_int (round_even (q / 2 powi eq)) * 2 powi eq"
    by (simp add: round_val_def Let_def eq_def)
  have le: "ep \<le> eq" using ilog2_mono[OF assms] by (simp add: ep_def eq_def)
  show ?thesis
  proof (cases "ep = eq")
    case True
    have "p / 2 powi eq \<le> q / 2 powi eq"
      using assms(2) powi2_pos[of eq] by (simp add: divide_right_mono)
    then have "round_even (p / 2 powi eq) \<le> round_even (q / 2 powi eq)"
      by (rule round_even_mono)
    then have "(of_int (round_even (p / 2 powi eq))::rat) \<le> of_int (round_even (q / 2 powi eq))"
      by (simp only: of_int_le_iff)
    then show ?thesis unfolding vp vq True using powi2_pos[of eq]
      by (simp add: mult_right_mono)
  next
    case False
    then have lt: "ep + 1 \<le> eq" using le by simp
    have kq: "ilog2 q = eq + 52" using lt by (simp add: ep_def eq_def max_def split: if_splits)
    have kp: "ilog2 p + 1 \<le> ep + 53" by (simp add: ep_def)
    have "p < 2 powi (ilog2 p + 1)" using ilog2_bounds[OF assms(1)] by simp
    also have "\<dots> \<le> 2 powi (ep + 53)" using kp by (simp only: powi2_le_iff)
    also have "\<dots> = 2 powi 53 * 2 powi ep" by (simp add: power_int_add)
    finally have "p / 2 powi ep \<le> 2 powi 53" using powi2_pos[of ep]
      by (simp add: field_simps)
    also have "(2::rat) powi 53 = of_int (2 ^ 53)" by (simp add: power_int_def)
    finally have "round_even (p / 2 powi ep) \<le> 2 ^ 53" by (rule round_even_le)
    then have "(of_int (round_even (p / 2 powi ep))::rat) \<le> of_int (2 ^ 53)"
      by (simp only: of_int_le_iff)
    then have "round_val p \<le> of_int (2 ^ 53) * 2 powi ep" unfolding vp using powi2_pos[of ep]
      by (simp add: mult_right_mono)
    also have "(of_int (2 ^ 53)::rat) = 2 powi 53" by (simp add: power_int_def)
    also have "(2::rat) powi 53 * 2 powi ep = 2 powi (ep + 53)" by (simp add: power_int_add)
    also have "\<dots> \<le> 2 powi (eq + 52)" using lt by (simp only: powi2_le_iff)
    finally have A: "round_val p \<le> 2 powi (eq + 52)" .
    have "(2::rat) powi (eq + 52) \<le> q" using ilog2_bounds[OF q0] kq by simp
    moreover have "(2::rat) powi (eq + 52) = 2 powi 52 * 2 powi eq" by (simp add: power_int_add)
    ultimately have "(2::rat) powi 52 \<le> q / 2 powi eq" using powi2_pos[of eq]
      by (simp add: field_simps)
    moreover have "(2::rat) powi 52 = of_int (2 ^ 52)" by (simp add: power_int_def)
    ultimately have "of_int (2 ^ 52) \<le> q / 2 powi eq" by simp
    then have "2 ^ 52 \<le> round_even (q / 2 powi eq)" by (rule round_even_ge)
    then have "(of_int (2 ^ 52)::rat) \<le> of_int (round_even (q / 2 powi eq))"
      by (simp only: of_int_le_iff)
    then have "of_int (2 ^ 52) * 2 powi eq \<le> round_val q" unfolding vq using powi2_pos[of eq]
      by (simp add: mult_right_mono)
    moreover have "(of_int (2 ^ 52)::rat) = 2 powi 52" by (simp add: power_int_def)
    moreover have "(2::rat) powi 52 * 2 powi eq = 2 powi (eq + 52)"
      by (simp add: power_int_add)
    ultimately have B: "2 powi (eq + 52) \<le> round_val q" by simp
    from A B show ?thesis by simp
  qed
qed

lemma fround_not_NaN: "fround q \<noteq> NaN"
  by (simp add: fround_def round_pos_def)

lemma fround_nonneg: "0 \<le> q \<Longrightarrow> fle (Fin 0) (fround q)"
  using round_val_nonneg[of q] by (auto simp add: fround_def round_pos_def)

lemma round_pos_mono: "0 < p \<Longrightarrow> p \<le> q \<Longrightarrow> fle (round_pos p) (round_pos q)"
  using round_val_mono[of p q] by (auto simp add: round_pos_def)

lemma fround_mono:
  assumes "0 \<le> p" "p \<le> q"
  shows "fle (fround p) (fround q)"
proof (cases "p = 0")
  case True
  then show ?thesis using fround_nonneg[of q] assms by (simp add: fround_def)
next
  case False
  then have "0 < p" "0 < q" using assms by simp_all
  then show ?thesis using round_pos_mono[of p q] assms by (simp add: fround_def)
qed

lemma fle_refl: "x \<noteq> NaN \<Longrightarrow> fle x x"
  by (cases x) simp_all

lemma fle_trans: "fle x y \<Longrightarrow> fle y z \<Longrightarrow> fle x z"
  by (cases x; cases y; cases z) simp_all

lemma fmul_commute: "fmul a b = fmul b a"
  by (cases a; cases b) (simp_all add: mult.commute)

lemma fmul_nonneg:
  "fle (Fin 0) a \<Longrightarrow> fle (Fin 0) b \<Longrightarrow> fmul a b \<noteq> NaN \<Longrightarrow> fle (Fin 0) (fmul a b)"
  by (cases a; cases b) (auto simp add: fround_nonneg split: if_splits)

lemma fmul_mono_left:
  assumes "fle (Fin 0) a" "fle a a'" "fle (Fin 0) b" "fmul a b \<noteq> NaN" "fmul a' b \<noteq> NaN"
  shows "fle (fmul a b) (fmul a' b)"
proof (cases b)
  case (Fin y)
  then have y0: "0 \<le> y" using assms(3) by simp
  show ?thesis
  proof (cases a)
    case (Fin x)
    note ax = this
    then have x0: "0 \<le> x" using assms(1) by simp
    show ?thesis
    proof (cases a')
      case (Fin x')
      then have "x \<le> x'" using assms(2) ax by simp
      then have "x * y \<le> x' * y" using y0 by (simp add: mult_right_mono)
      moreover have "0 \<le> x * y" using x0 y0 by simp
      ultimately show ?thesis using fround_mono[of "x * y" "x' * y"] ax Fin \<open>b = Fin y\<close> by simp
    next
      case PInf
      then show ?thesis using assms ax \<open>b = Fin y\<close> y0
        by (cases "fround (x * y)") (auto simp add: fround_not_NaN split: if_splits)
    next
      case NInf
      then show ?thesis using assms ax by simp
    next
      case NaN
      then show ?thesis using assms ax by simp
    qed
  next
    case PInf
    then show ?thesis using assms \<open>b = Fin y\<close> by (cases a') (auto split: if_splits)
  next
    case NInf
    then show ?thesis using assms by simp
  next
    case NaN
    then show ?thesis using assms by simp
  qed
next
  case PInf
  then show ?thesis using assms by (cases a; cases a') (auto split: if_splits)
next
  case NInf
  then show ?thesis using assms by simp
next
  case NaN
  then show ?thesis using assms by simp
qed

lemma fmul_mono_right:
  "fle (Fin 0) a \<Longrightarrow> fle (Fin 0) b \<Longrightarrow> fle b b' \<Longrightarrow> fmul a b \<noteq> NaN \<Longrightarrow> fmul a b' \<noteq> NaN
    \<Longrightarrow> fle (fmul a b) (fmul a b')"
  using fmul_mono_left[of b b' a] by (simp add: fmul_commute)

lemma fdiv2_not_NaN: "a \<noteq> NaN \<Longrightarrow> fdiv a (Fin 2) \<noteq> NaN"
  by (cases a) (simp_all add: fround_not_NaN)

lemma fdiv2_nonneg: "fle (Fin 0) a \<Longrightarrow> fle (Fin 0) (fdiv a (Fin 2))"
  by (cases a) (simp_all add: fround_nonneg)

lemma fdiv2_mono:
  assumes "fle (Fin 0) a" "fle a a'"
  shows "fle (fdiv a (Fin 2)) (fdiv a' (Fin 2))"
proof (cases a)
  case (Fin x)
  note ax = this
  show ?thesis
  proof (cases a')
    case (Fin x')
    then show ?thesis using assms ax fround_mono[of "x / 2" "x' / 2"] by simp
  next
    case PInf
    then show ?thesis using ax by (cases "fround (x / 2)") (simp_all add: fround_not_NaN)
  next
    case NInf
    then show ?thesis using assms ax by simp
  next
    case NaN
    then show ?thesis using assms ax by simp
  qed
next
  case PInf
  then show ?thesis using assms by (cases a') simp_all
next
  case NInf
  then show ?thesis using assms by simp
next
  case NaN
  then show ?thesis using assms by simp
qed

lemma powi2_neg_numeral: "(2::rat) powi (- numeral n) = 1 / 2 ^ numeral n"
  by (simp add: power_int_def field_simps)

lemma powi2_numeral: "(2::rat) powi (numeral n) = 2 ^ numeral n"
  by (simp add: power_int_def)

lemmas powi2_eval = powi2_neg_numeral powi2_numeral

lemma round_even_tie:
  assumes "x = of_int f + 1 / 2"
  shows "round_even x = (if even f then f else f + 1)"
proof -
  have "\<lfloor>x\<rfloor> = f" unfolding assms by (rule floor_unique) simp_all
  then show ?thesis using assms by (simp add: round_even_def Let_def)
qed

lemma round_val_eval:
  assumes "2 powi k \<le> q" "q < 2 powi (k + 1)"
    and "e = max k (- 1022) - 52"
    and "round_even (q / 2 powi e) = n"
  shows "round_val q = of_int n * 2 powi e"
  using assms(3,4) ilog2_unique[OF assms(1,2)] by (simp add: round_val_def Let_def)

lemma fround_eval:
  assumes "2 powi k \<le> q" "q < 2 powi (k + 1)"
    and "e = max k (- 1022) - 52"
    and "of_int n - 1 / 2 < q / 2 powi e" "q / 2 powi e < of_int n + 1 / 2"
    and "of_int n * 2 powi e = v"
    and "v < 2 ^ 1024"
  shows "fround q = Fin v"
proof -
  have q0: "0 < q" using assms(1) powi2_pos[of k] by linarith
  have "round_val q = v"
    using round_val_eval[OF assms(1,2,3) round_even_eqI[OF assms(4,5)]] assms(6) by simp
  then show ?thesis using q0 assms(7) by (simp add: fround_def round_pos_def)
qed

lemma fround_eval_tie:
  assumes "2 powi k \<le> q" "q < 2 powi (k + 1)"
    and "e = max k (- 1022) - 52"
    and "q / 2 powi e = of_int f + 1 / 2"
    and "of_int (if even f then f else f + 1) * 2 powi e = v"
    and "v < 2 ^ 1024"
  shows "fround q = Fin v"
proof -
  have q0: "0 < q" using assms(1) powi2_pos[of k] by linarith
  have "round_val q = v"
    using round_val_eval[OF assms(1,2,3) round_even_tie[OF assms(4)]] assms(5) by simp
  then show ?thesis using q0 assms(6) by (simp add: fround_def round_pos_def)
qed

lemma fround_underflow:
  assumes "0 < q" "q < 2 powi (- 1075)"
  shows "fround q = Fin 0"
proof -
  have "q < 2 powi (ilog2 q + 1) \<and> 2 powi (ilog2 q) \<le> q" using ilog2_bounds[OF assms(1)] by simp
  then have "(2::rat) powi (ilog2 q) < 2 powi (- 1075)" using assms(2) by linarith
  then have "ilog2 q < - 1075" by (simp only: powi2_less_iff)
  then have e: "max (ilog2 q) (- 1022) - 52 = - 1074" by simp
  have "(2::rat) powi (- 1075) = 2 powi (- 1074) / 2"
    using power_int_add[of "2::rat" "- 1075" 1] by simp
  then have "q / 2 powi (- 1074) < 1 / 2" using assms(2) powi2_pos[of "- 1074"]
    by (simp add: field_simps)
  moreover have "0 < q / 2 powi (- 1074)" using assms(1) powi2_pos[of "- 1074"] by simp
  ultimately have "round_even (q / 2 powi (- 1074)) = 0"
    by (intro round_even_eqI) simp_all
  then have "round_val q = 0" using e by (simp add: round_val_def Let_def)
  then show ?thesis using assms(1) by (simp add: fround_def round_pos_def)
qed

lemma fmul_eval:
  assumes "2 powi k \<le> a * b" "a * b < 2 powi (k + 1)"
    and "e = max k (- 1022) - 52"
    and "of_int n - 1 / 2 < a * b / 2 powi e" "a * b / 2 powi e < of_int n + 1 / 2"
    and "of_int n * 2 powi e = v"
    and "v < 2 ^ 1024"
  shows "fmul (Fin a) (Fin b) = Fin v"
  using fround_eval[OF assms] by simp

lemma fmul_eval_tie:
  assumes "2 powi k \<le> a * b" "a * b < 2 powi (k + 1)"
    and "e = max k (- 1022) - 52"
    and "a * b / 2 powi e = of_int f + 1 / 2"
    and "of_int (if even f then f else f + 1) * 2 powi e = v"
    and "v < 2 ^ 1024"
  shows "fmul (Fin a) (Fin b) = Fin v"
  using fround_eval_tie[OF assms] by simp

lemma fmul_underflow:
  assumes "0 < a * b" "a * b < 2 powi (- 1075)"
  shows "fmul (Fin a) (Fin b) = Fin 0"
  using fround_underflow[OF assms] by simp

lemma fdiv_eval:
  assumes "2 powi k \<le> a / b" "a / b < 2 powi (k + 1)"
    and "e = max k (- 1022) - 52"
    and "of_int n - 1 / 2 < a / b / 2 powi e" "a / b / 2 powi e < of_int n + 1 / 2"
    and "of_int n * 2 powi e = v"
    and "v < 2 ^ 1024"
  shows "fdiv (Fin a) (Fin b) = Fin v"
proof -
  have "0 < a / b" using assms(1) powi2_pos[of k] by linarith
  then have "b \<noteq> 0" by auto
  then show ?thesis using fround_eval[OF assms] by simp
qed

lemma fdiv_eval_tie:
  assumes "2 powi k \<le> a / b" "a / b < 2 powi (k + 1)"
    and "e = max k (- 1022) - 52"
    and "a / b / 2 powi e = of_int f + 1 / 2"
    and "of_int (if even f then f else f + 1) * 2 powi e = v"
    and "v < 2 ^ 1024"
  shows "fdiv (Fin a) (Fin b) = Fin v"
proof -
  have "0 < a / b" using assms(1) powi2_pos[of k] by linarith
  then have "b \<noteq> 0" by auto
  then show ?thesis using fround_eval_tie[OF assms] by simp
qed

lemma flt_imp_fle: "flt x y \<Longrightarrow> fle x y"
  by (cases x; cases y) simp_all

lemma fmul_NaN_left: "fmul x y \<noteq> NaN \<Longrightarrow> x \<noteq> NaN"
  by (cases x) simp_all

lemma volume_const_nonneg: "fle (Fin 0) (fmul (fdiv (Fin 4) (Fin 3)) np_pi)"
proof -
  have a: "fle (Fin 0) (fdiv (Fin 4) (Fin 3))" by (simp add: fround_nonneg)
  have b: "fle (Fin 0) np_pi" by (simp add: np_pi_def)
  have "fmul (fdiv (Fin 4) (Fin 3)) np_pi \<noteq> NaN"
    using a by (cases "fdiv (Fin 4) (Fin 3)") (simp_all add: np_pi_def fround_not_NaN)
  with a b show ?thesis by (rule fmul_nonneg)
qed

lemma fmul_step:
  assumes "fle (Fin 0) x" "fle x x'" "fle (Fin 0) y" "fmul x y \<noteq> NaN" "fmul x' y \<noteq> NaN"
  shows "fle (fmul x y) (fmul x' y) \<and> fle (Fin 0) (fmul x y)"
  using fmul_mono_left[OF assms] fmul_nonneg[OF assms(1,3,4)] by simp

lemma calculate_volume_mono_length:
  assumes "fle (Fin 0) l" "fle (Fin 0) w" "fle (Fin 0) d" "fle l l'"
    and "calculate_volume l w d \<noteq> NaN" "calculate_volume l' w d \<noteq> NaN"
  shows "fle (calculate_volume l w d) (calculate_volume l' w d)"
proof -
  define c where "c = fmul (fdiv (Fin 4) (Fin 3)) np_pi"
  define hw where "hw = fdiv w (Fin 2)"
  define hd where "hd = fdiv d (Fin 2)"
  have c0: "fle (Fin 0) c" unfolding c_def by (rule volume_const_nonneg)
  have hw0: "fle (Fin 0) hw" unfolding hw_def using assms(2) by (rule fdiv2_nonneg)
  have hd0: "fle (Fin 0) hd" unfolding hd_def using assms(3) by (rule fdiv2_nonneg)
  have k0: "fle (Fin 0) (Fin 1000)" by simp
  let ?p1 = "\<lambda>x. fmul c (fdiv x (Fin 2))"
  let ?p2 = "\<lambda>x. fmul (?p1 x) hw"
  let ?p3 = "\<lambda>x. fmul (?p2 x) hd"
  have v: "\<And>x. calculate_volume x w d = fmul (?p3 x) (Fin 1000)"
    by (simp add: calculate_volume_def c_def hw_def hd_def)
  have n3: "?p3 l \<noteq> NaN" "?p3 l' \<noteq> NaN"
    using assms(5,6) unfolding v by (auto dest: fmul_NaN_left)
  then have n2: "?p2 l \<noteq> NaN" "?p2 l' \<noteq> NaN" by (auto dest: fmul_NaN_left)
  then have n1: "?p1 l \<noteq> NaN" "?p1 l' \<noteq> NaN" by (auto dest: fmul_NaN_left)
  have h: "fle (fdiv l (Fin 2)) (fdiv l' (Fin 2))" using assms(1,4) by (rule fdiv2_mono)
  have h0: "fle (Fin 0) (fdiv l (Fin 2))" using assms(1) by (rule fdiv2_nonneg)
  have s1: "fle (?p1 l) (?p1 l')" using c0 h0 h n1 by (rule fmul_mono_right)
  have s1': "fle (Fin 0) (?p1 l)" using c0 h0 n1(1) by (rule fmul_nonneg)
  have s2: "fle (?p2 l) (?p2 l') \<and> fle (Fin 0) (?p2 l)"
    using s1' s1 hw0 n2 by (rule fmul_step)
  have s3: "fle (?p3 l) (?p3 l') \<and> fle (Fin 0) (?p3 l)"
    using s2[THEN conjunct2] s2[THEN conjunct1] hd0 n3 by (rule fmul_step)
  have "fle (fmul (?p3 l) (Fin 1000)) (fmul (?p3 l') (Fin 1000))"
    using s3[THEN conjunct2] s3[THEN conjunct1] k0 assms(5,6)[unfolded v]
    by (rule fmul_mono_left)
  then show ?thesis unfolding v .
qed

lemma calculate_volume_mono_width:
  assumes "fle (Fin 0) l" "fle (Fin 0) w" "fle (Fin 0) d" "fle w w'"
    and "calculate_volume l w d \<noteq> NaN" "calculate_volume l w' d \<noteq> NaN"
  shows "fle (calculate_volume l w d) (calculate_volume l w' d)"
proof -
  define p1 where "p1 = fmul (fmul (fdiv (Fin 4) (Fin 3)) np_pi) (fdiv l (Fin 2))"
  define hd where "hd = fdiv d (Fin 2)"
  have hd0: "fle (Fin 0) hd" unfolding hd_def using assms(3) by (rule fdiv2_nonneg)
  have k0: "fle (Fin 0) (Fin 1000)" by simp
  let ?p2 = "\<lambda>x. fmul p1 (fdiv x (Fin 2))"
  let ?p3 = "\<lambda>x. fmul (?p2 x) hd"
  have v: "\<And>x. calculate_volume l x d = fmul (?p3 x) (Fin 1000)"
    by (simp add: calculate_volume_def p1_def hd_def)
  have n3: "?p3 w \<noteq> NaN" "?p3 w' \<noteq> NaN"
    using assms(5,6) unfolding v by (auto dest: fmul_NaN_left)
  then have n2: "?p2 w \<noteq> NaN" "?p2 w' \<noteq> NaN" by (auto dest: fmul_NaN_left)
  then have n1: "p1 \<noteq> NaN" by (auto dest: fmul_NaN_left)
  have p10: "fle (Fin 0) p1" unfolding p1_def
    using volume_const_nonneg fdiv2_nonneg[OF assms(1)] n1[unfolded p1_def] by (rule fmul_nonneg)
  have h: "fle (fdiv w (Fin 2)) (fdiv w' (Fin 2))" using assms(2,4) by (rule fdiv2_mono)
  have h0: "fle (Fin 0) (fdiv w (Fin 2))" using assms(2) by (rule fdiv2_nonneg)
  have s2: "fle (?p2 w) (?p2 w')" using p10 h0 h n2 by (rule fmul_mono_right)
  have s2': "fle (Fin 0) (?p2 w)" using p10 h0 n2(1) by (rule fmul_nonneg)
  have s3: "fle (?p3 w) (?p3 w') \<and> fle (Fin 0) (?p3 w)"
    using s2' s2 hd0 n3 by (rule fmul_step)
  have "fle (fmul (?p3 w) (Fin 1000)) (fmul (?p3 w') (Fin 1000))"
    using s3[THEN conjunct2] s3[THEN conjunct1] k0 assms(5,6)[unfolded v]
    by (rule fmul_mono_left)
  then show ?thesis unfolding v .
qed

lemma calculate_volume_mono_depth:
  assumes "fle (Fin 0) l" "fle (Fin 0) w" "fle (Fin 0) d" "fle d d'"
    and "calculate_volume l w d \<noteq> NaN" "calculate_volume l w d' \<noteq> NaN"
  shows "fle (calculate_volume l w d) (calculate_volume l w d')"
proof -
  define p1 where "p1 = fmul (fmul (fdiv (Fin 4) (Fin 3)) np_pi) (fdiv l (Fin 2))"
  define p2 where "p2 = fmul p1 (fdiv w (Fin 2))"
  have k0: "fle (Fin 0) (Fin 1000)" by simp
  let ?p3 = "\<lambda>x. fmul p2 (fdiv x (Fin 2))"
  have v: "\<And>x. calculate_volume l w x = fmul (?p3 x) (Fin 1000)"
    by (simp add: calculate_volume_def p1_def p2_def)
  have n3: "?p3 d \<noteq> NaN" "?p3 d' \<noteq> NaN"
    using assms(5,6) unfolding v by (auto dest: fmul_NaN_left)
  then have n2: "p2 \<noteq> NaN" by (auto dest: fmul_NaN_left)
  then have n1: "p1 \<noteq> NaN" unfolding p2_def by (auto dest: fmul_NaN_left)
  have p10: "fle (Fin 0) p1" unfolding p1_def
    using volume_const_nonneg fdiv2_nonneg[OF assms(1)] n1[unfolded p1_def] by (rule fmul_nonneg)
  have p20: "fle (Fin 0) p2" unfolding p2_def
    using p10 fdiv2_nonneg[OF assms(2)] n2[unfolded p2_def] by (rule fmul_nonneg)
  have h: "fle (fdiv d (Fin 2)) (fdiv d' (Fin 2))" using assms(3,4) by (rule fdiv2_mono)
  have h0: "fle (Fin 0) (fdiv d (Fin 2))" using assms(3) by (rule fdiv2_nonneg)
  have s3: "fle (?p3 d) (?p3 d')" using p20 h0 h n3 by (rule fmul_mono_right)
  have s3': "fle (Fin 0) (?p3 d)" using p20 h0 n3(1) by (rule fmul_nonneg)
  have "fle (fmul (?p3 d) (Fin 1000)) (fmul (?p3 d') (Fin 1000))"
    using s3' s3 k0 assms(5,6)[unfolded v] by (rule fmul_mono_left)
  then show ?thesis unfolding v .
qed

section \<open>Properties of the batch import\<close>

lemmas prog_defs = bindp_def ret_def raise_def lift_def emit_def

lemmas method_defs = self_validate_measurements_def self_calculate_volume_def

lemma process_csv_row_InrD:
  assumes "process_csv_row lib row s = (s', Inr e)"
  shows "\<exists>v_id v_time t vl vw vd l w d voided.
           series_get row ''patient_id'' = Inr v_id
         \<and> series_get row ''measurement_time'' = Inr v_time
         \<and> pd_to_datetime lib (py_strip (py_str lib v_time)) = Inr t
         \<and> series_get row ''length_cm'' = Inr vl \<and> py_float lib vl = Inr l
         \<and> series_get row ''width_cm'' = Inr vw \<and> py_float lib vw = Inr w
         \<and> series_get row ''depth_cm'' = Inr vd \<and> py_float lib vd = Inr d
         \<and> validate_measurements l w d = Inr ()
         \<and> (if present row ''voided_volume_ml''
             then \<exists>x. py_float lib (series_at row ''voided_volume_ml'') = Inr x \<and> voided = VFloat x
             else voided = VNone)
         \<and> e = [(''patient_id'', VStr (py_strip (py_str lib v_id))),
                (''timestamp'', VTime t),
                (''length_cm'', VFloat l),
                (''width_cm'', VFloat w),
                (''depth_cm'', VFloat d),
                (''voided_volume_ml'', voided),
                (''context'', VStr (if present row ''context''
                    then py_lower (py_strip (py_str lib (series_at row ''context'')))
                    else ''unknown'')),
                (''notes'', VStr (if present row ''notes''
                    then py_strip (py_str lib (series_at row ''notes''))
                    else [])),
                (''calculated_volume_ml'', VFloat (calculate_volume l w d)),
                (''source'', VStr ''csv_import'')]
         \<and> s' = s\<lparr>trace := trace s @ [Call_validate l w d, Call_calculate l w d]\<rparr>"
  using assms unfolding process_csv_row_def method_defs
  by (auto simp add: prog_defs Let_def split: sum.splits prod.splits if_splits)

lemma py_float_not_FileNotFound: "py_float lib v \<noteq> Inl (FileNotFoundError q)"
  by (cases v) (auto split: option.splits pyfloat.splits)

lemma process_csv_row_InlD:
  assumes "process_csv_row lib row s = (s', Inl e)"
  shows "(s' = s \<or> (\<exists>l w d. s' = s\<lparr>trace := trace s @ [Call_validate l w d]\<rparr>))
       \<and> e \<noteq> FileNotFoundError q"
  using assms unfolding process_csv_row_def method_defs
  by (auto simp add: prog_defs Let_def series_get_def pd_to_datetime_def
      validate_measurements_def py_float_not_FileNotFound
      split: sum.splits prod.splits if_splits option.splits)

lemma process_csv_row_same_outcome:
  "snd (process_csv_row lib row s) = snd (process_csv_row lib row t)"
  unfolding process_csv_row_def method_defs
  by (auto simp add: prog_defs Let_def split: sum.splits prod.splits if_splits)

lemma process_csv_row_outcome:
  "snd (process_csv_row lib row s) = row_outcome lib row"
  unfolding row_outcome_def by (rule process_csv_row_same_outcome)

lemma process_csv_row_keeps:
  assumes "process_csv_row lib row s = (s', r)"
  shows "entries s' = entries s \<and> files s' = files s \<and> stdin s' = stdin s"
proof (cases r)
  case (Inl e)
  then show ?thesis using process_csv_row_InlD[of lib row s s' e "[]"] assms by auto
next
  case (Inr en)
  then show ?thesis using process_csv_row_InrD[of lib row s s' en] assms by auto
qed

lemma process_csv_row_volume_key:
  assumes "process_csv_row lib row s = (s', Inr en)"
  shows "\<exists>l w d. dict_get en ''length_cm'' = Inr (VFloat l)
          \<and> dict_get en ''width_cm'' = Inr (VFloat w)
          \<and> dict_get en ''depth_cm'' = Inr (VFloat d)
          \<and> dict_get en ''calculated_volume_ml'' = Inr (VFloat (calculate_volume l w d))"
  using process_csv_row_InrD[OF assms] by (auto simp add: dict_get_def)

lemma process_csv_row_keys:
  assumes "process_csv_row lib row s = (s', Inr en)"
  shows "map fst en = field_names"
  using process_csv_row_InrD[OF assms] by (auto simp add: field_names_def)

lemma for_rows_stops:
  assumes "map (row_outcome lib) pre = map Inr ens" "row_outcome lib bad = Inl e"
  shows "\<exists>s'. for_rows lib (enumerate n (pre @ bad # post)) s = (s', Inl e)
          \<and> entries s' = entries s @ ens \<and> files s' = files s"
  using assms(1)
proof (induction pre arbitrary: n s ens)
  case Nil
  obtain s1 r where p: "process_csv_row lib bad s = (s1, r)" by (cases "process_csv_row lib bad s")
  then have "r = Inl e" using process_csv_row_outcome[of lib bad s] assms(2) by simp
  then show ?case using p process_csv_row_keeps[OF p] Nil by (simp add: bindp_def)
next
  case (Cons r pre)
  then obtain en ens' where ens: "ens = en # ens'" "row_outcome lib r = Inr en"
    "map (row_outcome lib) pre = map Inr ens'" by (cases ens) auto
  obtain s1 r1 where p: "process_csv_row lib r s = (s1, r1)" by (cases "process_csv_row lib r s")
  then have r1: "r1 = Inr en" using process_csv_row_outcome[of lib r s] ens(2) by simp
  have k: "entries s1 = entries s" "files s1 = files s" using process_csv_row_keeps[OF p] by simp_all
  obtain v where v: "dict_get en ''calculated_volume_ml'' = Inr v"
    using process_csv_row_volume_key[OF p[unfolded r1]] by auto
  define s2 where "s2 = s1\<lparr>entries := entries s1 @ [en],
    trace := trace s1 @ [Print (Added_row (n + 1) v)]\<rparr>"
  have step: "for_rows lib (enumerate n ((r # pre) @ bad # post)) s
      = for_rows lib (enumerate (Suc n) (pre @ bad # post)) s2"
    using p r1 v by (simp add: prog_defs append_entry_def s2_def)
  from Cons.IH[OF ens(3), of "Suc n" s2] obtain s' where
    "for_rows lib (enumerate (Suc n) (pre @ bad # post)) s2 = (s', Inl e)"
    "entries s' = entries s2 @ ens'" "files s' = files s2" by auto
  then show ?case using step k ens(1) by (simp add: s2_def)
qed

lemma auto_entry_stops:
  assumes "read_csv lib (files s) p = Inr df"
    and "rows df = pre @ bad # post"
    and "map (\<lambda>r. row_outcome lib \<lparr>index = columns df, vals = r\<rparr>) pre = map Inr ens"
    and "row_outcome lib \<lparr>index = columns df, vals = bad\<rparr> = Inl e"
  shows "\<exists>s'. auto_entry lib p s = (s', Inl e) \<and> entries s' = entries s @ ens
           \<and> files s' = files s"
proof -
  define mk where "mk = (\<lambda>r. \<lparr>index = columns df, vals = r\<rparr>)"
  define s0 where "s0 = s\<lparr>trace := trace s @ [Print (Loaded (length (rows df)) p)]\<rparr>"
  have it: "iterrows df = enumerate 0 (map mk pre @ mk bad # map mk post)"
    by (simp add: iterrows_def assms(2) mk_def)
  have a: "map (row_outcome lib) (map mk pre) = map Inr ens" using assms(3) by (simp add: mk_def comp_def)
  have b: "row_outcome lib (mk bad) = Inl e" using assms(4) by (simp add: mk_def)
  from for_rows_stops[OF a b, of 0 "map mk post" s0] obtain s' where
    s': "for_rows lib (iterrows df) s0 = (s', Inl e)" "entries s' = entries s0 @ ens"
    "files s' = files s0" unfolding it by auto
  have nf: "\<And>q. e \<noteq> FileNotFoundError q"
  proof -
    fix q
    obtain s1 r where p: "process_csv_row lib (mk bad) init_state = (s1, r)"
      by (cases "process_csv_row lib (mk bad) init_state")
    then have "r = Inl e" using b by (simp add: row_outcome_def)
    then show "e \<noteq> FileNotFoundError q" using process_csv_row_InlD[of lib "mk bad" init_state s1 e q] p
      by simp
  qed
  have "auto_entry_try lib p s = (s', Inl e)"
    using assms(1) s'(1) by (simp add: auto_entry_try_def prog_defs s0_def)
  then have "auto_entry lib p s = (s', Inl e)" using nf
    by (cases e) (auto simp add: auto_entry_def)
  then show ?thesis using s'(2,3) by (simp add: s0_def)
qed





lemmas series_defs = series_get_def series_has_def series_at_def present_def pd_notna_def


lemma for_rows_keeps_field_names:
  assumes "list_all (\<lambda>e. map fst e = field_names) (entries s)"
    and "for_rows lib irows s = (s', r)"
  shows "list_all (\<lambda>e. map fst e = field_names) (entries s')"
  using assms
proof (induction irows arbitrary: s)
  case Nil
  then show ?case by (simp add: ret_def)
next
  case (Cons a irows)
  obtain idx row where a: "a = (idx, row)" by (cases a)
  obtain s1 r1 where p: "process_csv_row lib row s = (s1, r1)"
    by (cases "process_csv_row lib row s")
  have k: "entries s1 = entries s" using process_csv_row_keeps[OF p] by simp
  show ?case
  proof (cases r1)
    case (Inl e)
    then show ?thesis using Cons.prems p k a by (simp add: bindp_def)
  next
    case (Inr en)
    have keys: "map fst en = field_names" using process_csv_row_keys[OF p[unfolded Inr]] .
    obtain v where v: "dict_get en ''calculated_volume_ml'' = Inr v"
      using process_csv_row_volume_key[OF p[unfolded Inr]] by auto
    define s2 where "s2 = s1\<lparr>entries := entries s1 @ [en],
      trace := trace s1 @ [Print (Added_row (idx + 1) v)]\<rparr>"
    have "for_rows lib (a # irows) s = for_rows lib irows s2"
      using p Inr v a by (simp add: prog_defs append_entry_def s2_def)
    moreover have "list_all (\<lambda>e. map fst e = field_names) (entries s2)"
      using Cons.prems(1) k keys by (simp add: s2_def)
    ultimately show ?thesis using Cons.IH[of s2] Cons.prems(2) by simp
  qed
qed

lemma auto_entry_keeps_field_names:
  assumes "list_all (\<lambda>e. map fst e = field_names) (entries s)"
    and "auto_entry lib p s = (s', r)"
  shows "list_all (\<lambda>e. map fst e = field_names) (entries s')"
proof (cases "read_csv lib (files s) p")
  case (Inl e)
  then show ?thesis using assms
    by (cases e) (auto simp add: auto_entry_def auto_entry_try_def prog_defs)
next
  case (Inr df)
  define s0 where "s0 = s\<lparr>trace := trace s @ [Print (Loaded (length (rows df)) p)]\<rparr>"
  obtain s1 r1 where f: "for_rows lib (iterrows df) s0 = (s1, r1)"
    by (cases "for_rows lib (iterrows df) s0")
  have inv: "list_all (\<lambda>e. map fst e = field_names) (entries s1)"
    using for_rows_keeps_field_names[OF _ f] assms(1) by (simp add: s0_def)
  have "entries s' = entries s1"
    using assms(2) Inr f
    by (cases r1; cases "projl r1")
      (auto simp add: auto_entry_def auto_entry_try_def prog_defs s0_def split: error.splits)
  then show ?thesis using inv by simp
qed

section \<open>Evaluating the estimator\<close>

text \<open>The constant \<^verbatim>\<open>(4/3) * np.pi\<close> of the formula, as a double.\<close>

lemma four_thirds: "fdiv (Fin 4) (Fin 3) = Fin (6004799503160661 / 4503599627370496)"
  by (rule fdiv_eval[where k = 0 and e = "- 52" and n = 6004799503160661])
    (simp_all add: powi2_eval)

lemma volume_const:
  "fmul (fdiv (Fin 4) (Fin 3)) np_pi = Fin (4716158501352293 / 1125899906842624)"
proof -
  have m: "fmul (Fin (6004799503160661 / 4503599627370496)) (Fin (884279719003555 / 281474976710656))
      = Fin (4716158501352293 / 1125899906842624)"
    by (rule fmul_eval[where k = 2 and e = "- 50" and n = 4716158501352293])
      (simp_all add: powi2_eval)
  show ?thesis unfolding np_pi_def four_thirds by (rule m)
qed

text \<open>The estimator on the examples, one rounding at a time.\<close>

lemma volume_2_2_2:
  "calculate_volume (Fin 2) (Fin 2) (Fin 2) = Fin (4605623536476849 / 1099511627776)"
proof -
  have s1: "fdiv (Fin 2) (Fin 2) = Fin 1"
    by (rule fdiv_eval[where k = 0 and e = "- 52" and n = 4503599627370496])
      (simp_all add: powi2_eval)
  have s2: "fmul (Fin (4716158501352293 / 1125899906842624)) (Fin 1)
      = Fin (4716158501352293 / 1125899906842624)"
    by (rule fmul_eval[where k = 2 and e = "- 50" and n = 4716158501352293])
      (simp_all add: powi2_eval)
  have s3: "fmul (Fin (4716158501352293 / 1125899906842624)) (Fin 1000)
      = Fin (4605623536476849 / 1099511627776)"
    by (rule fmul_eval[where k = 12 and e = "- 40" and n = 4605623536476849])
      (simp_all add: powi2_eval)
  show ?thesis
    unfolding calculate_volume_def volume_const
    by (simp only: s1 s2 s3)
qed

lemma volume_4_3_5:
  "calculate_volume (Fin 4) (Fin 3) (Fin 5) = Fin (2158886032723523 / 68719476736)"
proof -
  have s1: "fdiv (Fin 4) (Fin 2) = Fin 2"
    by (rule fdiv_eval[where k = 1 and e = "- 51" and n = 4503599627370496])
      (simp_all add: powi2_eval)
  have s2: "fmul (Fin (4716158501352293 / 1125899906842624)) (Fin 2)
      = Fin (4716158501352293 / 562949953421312)"
    by (rule fmul_eval[where k = 3 and e = "- 49" and n = 4716158501352293])
      (simp_all add: powi2_eval)
  have s3: "fdiv (Fin 3) (Fin 2) = Fin (3 / 2)"
    by (rule fdiv_eval[where k = 0 and e = "- 52" and n = 6755399441055744])
      (simp_all add: powi2_eval)
  have s4: "fmul (Fin (4716158501352293 / 562949953421312)) (Fin (3 / 2))
      = Fin (884279719003555 / 70368744177664)"
    by (rule fmul_eval_tie[where k = 3 and e = "- 49" and f = 7074237752028439])
      (simp_all add: powi2_eval)
  have s5: "fdiv (Fin 5) (Fin 2) = Fin (5 / 2)"
    by (rule fdiv_eval[where k = 1 and e = "- 51" and n = 5629499534213120])
      (simp_all add: powi2_eval)
  have s6: "fmul (Fin (884279719003555 / 70368744177664)) (Fin (5 / 2))
      = Fin (4421398595017775 / 140737488355328)"
    by (rule fmul_eval[where k = 4 and e = "- 48" and n = 8842797190035550])
      (simp_all add: powi2_eval)
  have s7: "fmul (Fin (4421398595017775 / 140737488355328)) (Fin 1000)
      = Fin (2158886032723523 / 68719476736)"
    by (rule fmul_eval[where k = 14 and e = "- 38" and n = 8635544130894092])
      (simp_all add: powi2_eval)
  show ?thesis
    unfolding calculate_volume_def volume_const
    by (simp only: s1 s2 s3 s4 s5 s6 s7)
qed

lemma volume_4_2_2:
  "calculate_volume (Fin 4) (Fin 2) (Fin 2) = Fin (4605623536476849 / 549755813888)"
proof -
  have s1: "fdiv (Fin 4) (Fin 2) = Fin 2"
    by (rule fdiv_eval[where k = 1 and e = "- 51" and n = 4503599627370496])
      (simp_all add: powi2_eval)
  have s2: "fmul (Fin (4716158501352293 / 1125899906842624)) (Fin 2)
      = Fin (4716158501352293 / 562949953421312)"
    by (rule fmul_eval[where k = 3 and e = "- 49" and n = 4716158501352293])
      (simp_all add: powi2_eval)
  have s3: "fdiv (Fin 2) (Fin 2) = Fin 1"
    by (rule fdiv_eval[where k = 0 and e = "- 52" and n = 4503599627370496])
      (simp_all add: powi2_eval)
  have s4: "fmul (Fin (4716158501352293 / 562949953421312)) (Fin 1)
      = Fin (4716158501352293 / 562949953421312)"
    by (rule fmul_eval[where k = 3 and e = "- 49" and n = 4716158501352293])
      (simp_all add: powi2_eval)
  have s5: "fmul (Fin (4716158501352293 / 562949953421312)) (Fin 1000)
      = Fin (4605623536476849 / 549755813888)"
    by (rule fmul_eval[where k = 13 and e = "- 39" and n = 4605623536476849])
      (simp_all add: powi2_eval)
  show ?thesis
    unfolding calculate_volume_def volume_const
    by (simp only: s1 s2 s3 s4 s5)
qed

lemma volume_2_4_2:
  "calculate_volume (Fin 2) (Fin 4) (Fin 2) = Fin (4605623536476849 / 549755813888)"
proof -
  have s1: "fdiv (Fin 2) (Fin 2) = Fin 1"
    by (rule fdiv_eval[where k = 0 and e = "- 52" and n = 4503599627370496])
      (simp_all add: powi2_eval)
  have s2: "fmul (Fin (4716158501352293 / 1125899906842624)) (Fin 1)
      = Fin (4716158501352293 / 1125899906842624)"
    by (rule fmul_eval[where k = 2 and e = "- 50" and n = 4716158501352293])
      (simp_all add: powi2_eval)
  have s3: "fdiv (Fin 4) (Fin 2) = Fin 2"
    by (rule fdiv_eval[where k = 1 and e = "- 51" and n = 4503599627370496])
      (simp_all add: powi2_eval)
  have s4: "fmul (Fin (4716158501352293 / 1125899906842624)) (Fin 2)
      = Fin (4716158501352293 / 562949953421312)"
    by (rule fmul_eval[where k = 3 and e = "- 49" and n = 4716158501352293])
      (simp_all add: powi2_eval)
  have s5: "fmul (Fin (4716158501352293 / 562949953421312)) (Fin 1)
      = Fin (4716158501352293 / 562949953421312)"
    by (rule fmul_eval[where k = 3 and e = "- 49" and n = 4716158501352293])
      (simp_all add: powi2_eval)
  have s6: "fmul (Fin (4716158501352293 / 562949953421312)) (Fin 1000)
      = Fin (4605623536476849 / 549755813888)"
    by (rule fmul_eval[where k = 13 and e = "- 39" and n = 4605623536476849])
      (simp_all add: powi2_eval)
  show ?thesis
    unfolding calculate_volume_def volume_const
    by (simp only: s1 s2 s3 s4 s5 s6)
qed

lemma volume_2_2_4:
  "calculate_volume (Fin 2) (Fin 2) (Fin 4) = Fin (4605623536476849 / 549755813888)"
proof -
  have s1: "fdiv (Fin 2) (Fin 2) = Fin 1"
    by (rule fdiv_eval[where k = 0 and e = "- 52" and n = 4503599627370496])
      (simp_all add: powi2_eval)
  have s2: "fmul (Fin (4716158501352293 / 1125899906842624)) (Fin 1)
      = Fin (4716158501352293 / 1125899906842624)"
    by (rule fmul_eval[where k = 2 and e = "- 50" and n = 4716158501352293])
      (simp_all add: powi2_eval)
  have s3: "fdiv (Fin 4) (Fin 2) = Fin 2"
    by (rule fdiv_eval[where k = 1 and e = "- 51" and n = 4503599627370496])
      (simp_all add: powi2_eval)
  have s4: "fmul (Fin (4716158501352293 / 1125899906842624)) (Fin 2)
      = Fin (4716158501352293 / 562949953421312)"
    by (rule fmul_eval[where k = 3 and e = "- 49" and n = 4716158501352293])
      (simp_all add: powi2_eval)
  have s5: "fmul (Fin (4716158501352293 / 562949953421312)) (Fin 1000)
      = Fin (4605623536476849 / 549755813888)"
    by (rule fmul_eval[where k = 13 and e = "- 39" and n = 4605623536476849])
      (simp_all add: powi2_eval)
  show ?thesis
    unfolding calculate_volume_def volume_const
    by (simp only: s1 s2 s3 s4 s5)
qed

lemma volume_tiny_1: "calculate_volume (Fin (1 / 2 ^ 600)) (Fin (1 / 2 ^ 600)) (Fin 1) = Fin 0"
proof -
  have s1: "fdiv (Fin (1 / 2 ^ 600)) (Fin 2) = Fin (1 / 2 ^ 601)"
    by (rule fdiv_eval[where k = "- 601" and e = "- 653" and n = 4503599627370496])
      (simp_all add: powi2_eval)
  have s2: "fmul (Fin (4716158501352293 / 1125899906842624)) (Fin (1 / 2 ^ 601))
      = Fin (4716158501352293 / 2 ^ 651)"
    by (rule fmul_eval[where k = "- 599" and e = "- 651" and n = 4716158501352293])
      (simp_all add: powi2_eval)
  have s3: "fmul (Fin (4716158501352293 / 2 ^ 651)) (Fin (1 / 2 ^ 601)) = Fin 0"
    by (rule fmul_underflow) (simp_all add: powi2_eval)
  have s4: "fdiv (Fin 1) (Fin 2) = Fin (1 / 2)"
    by (rule fdiv_eval[where k = "- 1" and e = "- 53" and n = 4503599627370496])
      (simp_all add: powi2_eval)
  have s5: "fmul (Fin 0) (Fin (1 / 2)) = Fin 0"
    by (simp add: fround_def)
  have s6: "fmul (Fin 0) (Fin 1000) = Fin 0"
    by (simp add: fround_def)
  show ?thesis
    unfolding calculate_volume_def volume_const
    by (simp only: s1 s2 s3 s4 s5 s6)
qed

lemma volume_tiny_2: "calculate_volume (Fin (1 / 2 ^ 600)) (Fin (1 / 2 ^ 600)) (Fin 2) = Fin 0"
proof -
  have s1: "fdiv (Fin (1 / 2 ^ 600)) (Fin 2) = Fin (1 / 2 ^ 601)"
    by (rule fdiv_eval[where k = "- 601" and e = "- 653" and n = 4503599627370496])
      (simp_all add: powi2_eval)
  have s2: "fmul (Fin (4716158501352293 / 1125899906842624)) (Fin (1 / 2 ^ 601))
      = Fin (4716158501352293 / 2 ^ 651)"
    by (rule fmul_eval[where k = "- 599" and e = "- 651" and n = 4716158501352293])
      (simp_all add: powi2_eval)
  have s3: "fmul (Fin (4716158501352293 / 2 ^ 651)) (Fin (1 / 2 ^ 601)) = Fin 0"
    by (rule fmul_underflow) (simp_all add: powi2_eval)
  have s4: "fdiv (Fin 2) (Fin 2) = Fin 1"
    by (rule fdiv_eval[where k = 0 and e = "- 52" and n = 4503599627370496])
      (simp_all add: powi2_eval)
  have s5: "fmul (Fin 0) (Fin 1) = Fin 0"
    by (simp add: fround_def)
  have s6: "fmul (Fin 0) (Fin 1000) = Fin 0"
    by (simp add: fround_def)
  show ?thesis
    unfolding calculate_volume_def volume_const
    by (simp only: s1 s2 s3 s4 s5 s6)
qed



text \<open>Overflow, and a product that is NaN.\<close>

lemma fround_overflow:
  assumes "2 ^ 1024 \<le> q"
  shows "fround q = PInf"
proof -
  have "round_val (2 ^ 1024) = of_int (2 ^ 52) * 2 powi 972"
    by (rule round_val_eval[where k = 1024]) (simp_all add: powi2_eval round_even_eqI)
  also have "\<dots> = 2 ^ 1024" by (simp add: powi2_eval)
  finally have "(2::rat) ^ 1024 \<le> round_val q" using round_val_mono[of "2 ^ 1024" q] assms by simp
  moreover have "0 < q" using assms by (rule less_le_trans[rotated]) simp
  ultimately show ?thesis by (simp add: fround_def round_pos_def)
qed

lemma calculate_volume_nan_example:
  "flt (Fin 0) (Fin (2 ^ 1023)) \<and> flt (Fin 0) (Fin (1 / 2 ^ 1074)) \<and> flt (Fin 0) (Fin 1)
   \<and> fle (Fin (1 / 2 ^ 1074)) (Fin (1 / 2 ^ 1073))
   \<and> calculate_volume (Fin (2 ^ 1023)) (Fin (1 / 2 ^ 1074)) (Fin 1) = NaN
   \<and> calculate_volume (Fin (2 ^ 1023)) (Fin (1 / 2 ^ 1073)) (Fin 1) = PInf"
proof -
  note c = volume_const
  have h: "fdiv (Fin (2 ^ 1023)) (Fin 2) = Fin (2 ^ 1022)"
    by (rule fdiv_eval[where k = 1022 and e = 970 and n = 4503599627370496])
      (simp_all add: powi2_eval)
  have p1: "fmul (Fin (4716158501352293 / 1125899906842624)) (Fin (2 ^ 1022)) = PInf"
    by (simp add: fround_overflow)
  have hw: "fdiv (Fin (1 / 2 ^ 1074)) (Fin 2) = Fin 0"
    by (rule fdiv_eval_tie[where k = "- 1075" and e = "- 1074" and f = 0])
      (simp_all add: powi2_eval)
  have hw': "fdiv (Fin (1 / 2 ^ 1073)) (Fin 2) = Fin (1 / 2 ^ 1074)"
    by (rule fdiv_eval[where k = "- 1074" and e = "- 1074" and n = 1])
      (simp_all add: powi2_eval)
  have hd: "fdiv (Fin 1) (Fin 2) = Fin (1 / 2)"
    by (rule fdiv_eval[where k = "- 1" and e = "- 53" and n = 4503599627370496])
      (simp_all add: powi2_eval)
  have a: "calculate_volume (Fin (2 ^ 1023)) (Fin (1 / 2 ^ 1074)) (Fin 1) = NaN"
    unfolding calculate_volume_def c h p1 hw hd by simp
  have b: "calculate_volume (Fin (2 ^ 1023)) (Fin (1 / 2 ^ 1073)) (Fin 1) = PInf"
    unfolding calculate_volume_def c h p1 hw' hd by simp
  have "flt (Fin 0) (Fin (2 ^ 1023))" "flt (Fin 0) (Fin (1 / 2 ^ 1074))" "flt (Fin 0) (Fin 1)"
    "fle (Fin (1 / 2 ^ 1074)) (Fin (1 / 2 ^ 1073))"
    by simp_all
  with a b show ?thesis by blast
qed

text \<open>The outcomes of the example rows.\<close>

lemma demo_row_outcome:
  "row_outcome demo_lib \<lparr>index = demo_columns, vals = demo_row\<rparr> = Inr demo_entry"
  by (simp add: row_outcome_def process_csv_row_def method_defs prog_defs series_defs
      demo_lib_def demo_columns_def demo_row_def demo_entry_def demo_volume_def init_state_def
      pd_to_datetime_def py_strip_def is_space_def validate_measurements_def volume_4_3_5)

lemma bad_row_outcome:
  "row_outcome demo_lib \<lparr>index = demo_columns, vals = bad_row\<rparr>
     = Inl (ValueError_not_positive Length (Fin 0))"
  by (simp add: row_outcome_def process_csv_row_def method_defs prog_defs series_defs
      demo_lib_def demo_columns_def bad_row_def init_state_def
      pd_to_datetime_def py_strip_def is_space_def validate_measurements_def)

text \<open>Reading and writing the example files.\<close>

lemmas demo_csv_defs = demo_lib_def demo_infer_def demo_text_def demo_floats_def
  demo_str_of_float_def demo_str_of_int_def demo_volume_def

lemma read_batch_file:
  "read_csv demo_lib (files batch_state) ''batch.csv'' = Inr batch_table"
  by (simp add: read_csv_def parse_csv_def parse_line_def field_at_def batch_state_def
      batch_file_def batch_table_def init_state_def demo_columns_def demo_row_def bad_row_def
      demo_csv_defs)








section \<open>The volume estimator\<close>


section \<open>The dimension validator\<close>

text \<open>
  Claim C2. Validation fails exactly when one of the three values is \<^verbatim>\<open><= 0\<close>, and
  then with the ValueError of \<^verbatim>\<open>_validate_measurements\<close>; every other triple is
  accepted, however large. On the batch path, a row whose three dimension cells convert
  to such a triple ends in an exception, with no call of the estimator and nothing
  appended to the store.
\<close>

theorem validation_rejects_non_positive:
  "((\<exists>e. validate_measurements l w d = Inl e)
      \<longleftrightarrow> (fle l (Fin 0) \<or> fle w (Fin 0) \<or> fle d (Fin 0)))
   \<and> (\<forall>e. validate_measurements l w d = Inl e \<longrightarrow> (\<exists>dim x. e = ValueError_not_positive dim x))
   \<and> (series_get row ''length_cm'' = Inr vl \<and> py_float lib vl = Inr l
      \<and> series_get row ''width_cm'' = Inr vw \<and> py_float lib vw = Inr w
      \<and> series_get row ''depth_cm'' = Inr vd \<and> py_float lib vd = Inr d
      \<and> (fle l (Fin 0) \<or> fle w (Fin 0) \<or> fle d (Fin 0))
      \<longrightarrow> (\<exists>s' e. process_csv_row lib row s = (s', Inl e)
             \<and> filter is_calculate (trace s') = filter is_calculate (trace s)
             \<and> entries s' = entries s))"
proof -
  have a: "(\<exists>e. validate_measurements l w d = Inl e)
      \<longleftrightarrow> (fle l (Fin 0) \<or> fle w (Fin 0) \<or> fle d (Fin 0))"
    by (simp add: validate_measurements_def)
  have b: "\<forall>e. validate_measurements l w d = Inl e \<longrightarrow> (\<exists>dim x. e = ValueError_not_positive dim x)"
    by (auto simp add: validate_measurements_def split: if_splits)
  have c: "\<exists>s' e. process_csv_row lib row s = (s', Inl e)
             \<and> filter is_calculate (trace s') = filter is_calculate (trace s)
             \<and> entries s' = entries s"
    if h: "series_get row ''length_cm'' = Inr vl" "py_float lib vl = Inr l"
      "series_get row ''width_cm'' = Inr vw" "py_float lib vw = Inr w"
      "series_get row ''depth_cm'' = Inr vd" "py_float lib vd = Inr d"
      "fle l (Fin 0) \<or> fle w (Fin 0) \<or> fle d (Fin 0)"
  proof -
    obtain s' r where p: "process_csv_row lib row s = (s', r)"
      by (cases "process_csv_row lib row s")
    have "r \<noteq> Inr en" for en
    proof
      assume "r = Inr en"
      from process_csv_row_InrD[OF p[unfolded this]] h a show False by auto
    qed
    then obtain e where e: "r = Inl e" by (cases r) auto
    from process_csv_row_InlD[OF p[unfolded e], of "[]"]
    have "filter is_calculate (trace s') = filter is_calculate (trace s) \<and> entries s' = entries s"
      by auto
    then show ?thesis using p e by simp
  qed
  from a b c show ?thesis by blast
qed

theorem validation_rejects_non_positive_witness:
  "fle (Fin 0) (Fin 0)
   \<and> validate_measurements (Fin 0) (Fin 3) (Fin 5) = Inl (ValueError_not_positive Length (Fin 0))
   \<and> (\<exists>s' e. process_csv_row demo_lib \<lparr>index = demo_columns, vals = bad_row\<rparr> init_state = (s', Inl e)
        \<and> filter is_calculate (trace s') = [] \<and> entries s' = [])"
proof -
  let ?row = "\<lparr>index = demo_columns, vals = bad_row\<rparr>"
  have h: "series_get ?row ''length_cm'' = Inr (VFloat (Fin 0))"
    "py_float demo_lib (VFloat (Fin 0)) = Inr (Fin 0)"
    "series_get ?row ''width_cm'' = Inr (VFloat (Fin 3))"
    "py_float demo_lib (VFloat (Fin 3)) = Inr (Fin 3)"
    "series_get ?row ''depth_cm'' = Inr (VFloat (Fin 5))"
    "py_float demo_lib (VFloat (Fin 5)) = Inr (Fin 5)"
    "fle (Fin 0) (Fin 0)"
    by (simp_all add: series_defs demo_columns_def bad_row_def)
  have v: "validate_measurements (Fin 0) (Fin 3) (Fin 5) = Inl (ValueError_not_positive Length (Fin 0))"
    by (simp add: validate_measurements_def)
  from validation_rejects_non_positive[of "Fin 0" "Fin 3" "Fin 5" ?row "VFloat (Fin 0)" demo_lib
      "VFloat (Fin 3)" "VFloat (Fin 5)" init_state] h
  have "\<exists>s' e. process_csv_row demo_lib ?row init_state = (s', Inl e)
        \<and> filter is_calculate (trace s') = filter is_calculate (trace init_state)
        \<and> entries s' = entries init_state"
    by blast
  then show ?thesis using h(7) v by (simp add: init_state_def)
qed

section \<open>The volume of a record\<close>

text \<open>
  Claim C3 says that on the interactive path too the record's
  \<^verbatim>\<open>calculated_volume_ml\<close> is the formula's value on its dimensions. The method never
  computes it: on valid input it raises NameError at the read of
  \<^verbatim>\<open>calculated_volume\<close>, and nothing is appended to the store.
\<close>

theorem manual_entry_name_error:
  "snd (manual_entry demo_lib (init_state\<lparr>stdin := demo_console\<rparr>))
     = Inl (NameError ''calculated_volume'')
   \<and> entries (fst (manual_entry demo_lib (init_state\<lparr>stdin := demo_console\<rparr>))) = []"
  by (simp add: manual_entry_def manual_prompts_def self_validate_measurements_def prog_defs
      py_input_def init_state_def demo_lib_def demo_console_def pd_to_datetime_def py_strip_def
      is_space_def validate_measurements_def Let_def)

text \<open>No input makes \<^verbatim>\<open>manual_entry\<close> return an entry.\<close>

lemma manual_entry_never_returns: "snd (manual_entry lib s) \<noteq> Inr e"
  by (simp add: manual_entry_def self_validate_measurements_def prog_defs
      split: prod.splits sum.splits)

text \<open>The batch path does compute it: the volume of an entry built from a row is the
  estimator's value on the entry's own dimensions (\<open>process_csv_row_volume_key\<close>).\<close>

section \<open>Monotonicity of the estimator\<close>

text \<open>
  Claim C4, as stated: increasing one dimension, the other two fixed, strictly increases
  the returned volume. It fails where the product underflows: with length and width
  \<open>2^-600\<close>, the depths 1 and 2 both give 0.0.
\<close>

theorem calculate_volume_not_strict:
  "flt (Fin 0) (Fin (1 / 2 ^ 600)) \<and> flt (Fin 0) (Fin 1) \<and> flt (Fin 1) (Fin 2)
   \<and> \<not> flt (calculate_volume (Fin (1 / 2 ^ 600)) (Fin (1 / 2 ^ 600)) (Fin 1))
           (calculate_volume (Fin (1 / 2 ^ 600)) (Fin (1 / 2 ^ 600)) (Fin 2))"
proof -
  have "flt (Fin 0) (Fin (1 / 2 ^ 600))" "flt (Fin 0) (Fin 1)" "flt (Fin 1) (Fin 2)"
    by simp_all
  moreover have "\<not> flt (calculate_volume (Fin (1 / 2 ^ 600)) (Fin (1 / 2 ^ 600)) (Fin 1))
           (calculate_volume (Fin (1 / 2 ^ 600)) (Fin (1 / 2 ^ 600)) (Fin 2))"
    unfolding volume_tiny_1 volume_tiny_2 by simp
  ultimately show ?thesis by blast
qed

text \<open>
  Claim C4, amended. For positive length, width and depth, increasing one dimension, the
  other two fixed, never decreases the returned volume (\<^verbatim>\<open><=\<close> in place of \<^verbatim>\<open><\<close>),
  whenever neither of the two volumes is NaN.
\<close>

theorem calculate_volume_monotone:
  assumes "flt (Fin 0) l" "flt (Fin 0) w" "flt (Fin 0) d"
  shows "(fle l l' \<and> calculate_volume l w d \<noteq> NaN \<and> calculate_volume l' w d \<noteq> NaN
            \<longrightarrow> fle (calculate_volume l w d) (calculate_volume l' w d))
       \<and> (fle w w' \<and> calculate_volume l w d \<noteq> NaN \<and> calculate_volume l w' d \<noteq> NaN
            \<longrightarrow> fle (calculate_volume l w d) (calculate_volume l w' d))
       \<and> (fle d d' \<and> calculate_volume l w d \<noteq> NaN \<and> calculate_volume l w d' \<noteq> NaN
            \<longrightarrow> fle (calculate_volume l w d) (calculate_volume l w d'))"
  using assms calculate_volume_mono_length[of l w d l'] calculate_volume_mono_width[of l w d w']
    calculate_volume_mono_depth[of l w d d']
  by (auto dest: flt_imp_fle)

text \<open>The proviso on NaN is needed: \<open>calculate_volume_nan_example\<close> has positive finite
  dimensions whose volume is NaN while that of a larger width is infinite.\<close>

theorem calculate_volume_monotone_witness:
  "flt (Fin 0) (Fin 2) \<and> fle (Fin 2) (Fin 4)
   \<and> calculate_volume (Fin 2) (Fin 2) (Fin 2) \<noteq> NaN
   \<and> calculate_volume (Fin 4) (Fin 2) (Fin 2) \<noteq> NaN
   \<and> calculate_volume (Fin 2) (Fin 4) (Fin 2) \<noteq> NaN
   \<and> calculate_volume (Fin 2) (Fin 2) (Fin 4) \<noteq> NaN
   \<and> fle (calculate_volume (Fin 2) (Fin 2) (Fin 2)) (calculate_volume (Fin 4) (Fin 2) (Fin 2))
   \<and> fle (calculate_volume (Fin 2) (Fin 2) (Fin 2)) (calculate_volume (Fin 2) (Fin 4) (Fin 2))
   \<and> fle (calculate_volume (Fin 2) (Fin 2) (Fin 2)) (calculate_volume (Fin 2) (Fin 2) (Fin 4))"
proof -
  have pos: "flt (Fin 0) (Fin 2)" by simp
  have le: "fle (Fin 2) (Fin 4)" by simp
  have n: "calculate_volume (Fin 2) (Fin 2) (Fin 2) \<noteq> NaN"
    "calculate_volume (Fin 4) (Fin 2) (Fin 2) \<noteq> NaN"
    "calculate_volume (Fin 2) (Fin 4) (Fin 2) \<noteq> NaN"
    "calculate_volume (Fin 2) (Fin 2) (Fin 4) \<noteq> NaN"
    by (simp_all only: volume_2_2_2 volume_4_2_2 volume_2_4_2 volume_2_2_4 pyfloat.distinct
      not_False_eq_True)
  from calculate_volume_monotone[OF pos pos pos, of "Fin 4" "Fin 4" "Fin 4"] le n pos
  show ?thesis by blast
qed

section \<open>Saving\<close>




section \<open>Optional fields of a batch row\<close>



section \<open>Trimming and case\<close>

text \<open>
  Claim C7 says that on the interactive path too the context is trimmed and lower-cased.
  \<^verbatim>\<open>manual_entry\<close> only trims it: the operator's \<^verbatim>\<open>" Pre_Void "\<close> becomes
  \<^verbatim>\<open>"Pre_Void"\<close>, where the batch path turns the same cell into \<^verbatim>\<open>"pre_void"\<close>.
\<close>

theorem manual_entry_context_not_lowered:
  "(\<exists>s' loc. manual_prompts demo_lib (init_state\<lparr>stdin := demo_console\<rparr>) = (s', Inr loc)
       \<and> m_context loc = ''Pre_Void'')
   \<and> (\<exists>s' e. process_csv_row demo_lib full_row init_state = (s', Inr e)
       \<and> dict_get e ''context'' = Inr (VStr ''pre_void''))"
  by (simp add: manual_prompts_def process_csv_row_def self_validate_measurements_def
      self_calculate_volume_def prog_defs py_input_def init_state_def demo_lib_def
      demo_console_def pd_to_datetime_def py_strip_def py_lower_def lower_char_def is_space_def
      validate_measurements_def Let_def full_row_def demo_row_def demo_columns_def
      series_get_def series_has_def series_at_def present_def pd_notna_def dict_get_def
      fround_def)

text \<open>On the batch path the claim holds: the context is trimmed and lower-cased, the
  patient id and the notes are trimmed only (\<open>process_csv_row_optional\<close>).\<close>

section \<open>Batch import of a missing file\<close>

text \<open>
  Claim C8. When the batch import is given a path that does not exist, it prints the
  file-not-found message and returns the empty list; the exception does not leave
  \<^verbatim>\<open>auto_entry\<close>, and the store (like the rest of the state but the output) is unchanged.
\<close>

theorem auto_entry_file_not_found:
  assumes "files s p = None"
  shows "auto_entry lib p s = (s\<lparr>trace := trace s @ [Print (File_not_found p)]\<rparr>, Inr [])
       \<and> entries (fst (auto_entry lib p s)) = entries s"
  using assms by (simp add: auto_entry_def auto_entry_try_def read_csv_def prog_defs)

theorem auto_entry_file_not_found_witness:
  "files init_state ''missing.csv'' = None
   \<and> auto_entry demo_lib ''missing.csv'' init_state =
       (init_state\<lparr>trace := [Print (File_not_found ''missing.csv'')]\<rparr>, Inr [])
   \<and> entries (fst (auto_entry demo_lib ''missing.csv'' init_state)) = []"
proof -
  have h: "files init_state ''missing.csv'' = None" by (simp add: init_state_def)
  from auto_entry_file_not_found[OF h, of demo_lib] h show ?thesis
    by (simp add: init_state_def)
qed

section \<open>Clearing and listing\<close>

text \<open>
  Claim C9, as stated: after \<^verbatim>\<open>clear_entries\<close> on a non-empty store,
  \<^verbatim>\<open>get_entries\<close> returns a table with no rows but the full column header. It fails:
  the table of an empty store has no columns, here for a store of one entry.
\<close>

theorem clear_then_list_no_header:
  "entries (init_state\<lparr>entries := [demo_entry]\<rparr>) \<noteq> []
   \<and> snd (get_entries (fst (clear_entries (init_state\<lparr>entries := [demo_entry]\<rparr>))))
       \<noteq> Inr \<lparr>columns = field_names, rows = []\<rparr>"
  by (simp add: get_entries_def clear_entries_def prog_defs pd_DataFrame_def field_names_def)

text \<open>
  Claim C9, amended. After \<^verbatim>\<open>clear_entries\<close> on any store, \<^verbatim>\<open>get_entries\<close> returns the
  table with no rows and no columns: the columns of a table come from the keys of the
  stored entries only.
\<close>

theorem clear_then_list_empty:
  "snd (get_entries (fst (clear_entries s))) = Inr \<lparr>columns = [], rows = []\<rparr>
   \<and> entries (fst (clear_entries s)) = []"
  by (simp add: get_entries_def clear_entries_def prog_defs pd_DataFrame_def)

section \<open>A failing row\<close>

text \<open>
  Claim C10. When a row of the batch file fails, whatever the exception, it leaves
  \<^verbatim>\<open>auto_entry\<close> uncaught, and the store holds, after its earlier contents, the
  entries of the rows before the failing one: no rollback, and the rows after it are
  not processed.
\<close>

theorem auto_entry_stops_at_failing_row:
  assumes "read_csv lib (files s) p = Inr df"
    and "rows df = pre @ bad # post"
    and "map (\<lambda>r. row_outcome lib \<lparr>index = columns df, vals = r\<rparr>) pre = map Inr ens"
    and "row_outcome lib \<lparr>index = columns df, vals = bad\<rparr> = Inl e"
  shows "\<exists>s'. auto_entry lib p s = (s', Inl e) \<and> entries s' = entries s @ ens"
  using auto_entry_stops[OF assms] by blast

theorem auto_entry_stops_at_failing_row_witness:
  "read_csv demo_lib (files batch_state) ''batch.csv'' = Inr batch_table
   \<and> rows batch_table = [demo_row] @ bad_row # [demo_row]
   \<and> row_outcome demo_lib \<lparr>index = columns batch_table, vals = demo_row\<rparr> = Inr demo_entry
   \<and> row_outcome demo_lib \<lparr>index = columns batch_table, vals = bad_row\<rparr>
        = Inl (ValueError_not_positive Length (Fin 0))
   \<and> snd (auto_entry demo_lib ''batch.csv'' batch_state)
        = Inl (ValueError_not_positive Length (Fin 0))
   \<and> entries (fst (auto_entry demo_lib ''batch.csv'' batch_state)) = [demo_entry]"
proof -
  have h: "read_csv demo_lib (files batch_state) ''batch.csv'' = Inr batch_table"
    "rows batch_table = [demo_row] @ bad_row # [demo_row]"
    by (simp_all add: read_batch_file batch_table_def)
  have o1: "row_outcome demo_lib \<lparr>index = columns batch_table, vals = demo_row\<rparr> = Inr demo_entry"
    by (simp add: batch_table_def demo_row_outcome)
  then have o1': "map (\<lambda>r. row_outcome demo_lib \<lparr>index = columns batch_table, vals = r\<rparr>) [demo_row]
      = map Inr [demo_entry]"
    by simp
  have o2: "row_outcome demo_lib \<lparr>index = columns batch_table, vals = bad_row\<rparr>
      = Inl (ValueError_not_positive Length (Fin 0))"
    by (simp add: batch_table_def bad_row_outcome)
  from auto_entry_stops_at_failing_row[OF h o1' o2]
  obtain s' where "auto_entry demo_lib ''batch.csv'' batch_state
      = (s', Inl (ValueError_not_positive Length (Fin 0)))"
    "entries s' = entries batch_state @ [demo_entry]" by blast
  then have "snd (auto_entry demo_lib ''batch.csv'' batch_state)
      = Inl (ValueError_not_positive Length (Fin 0))"
    "entries (fst (auto_entry demo_lib ''batch.csv'' batch_state)) = [demo_entry]"
    by (simp_all add: batch_state_def init_state_def)
  with h o1 o2 show ?thesis by blast
qed

end
